theory Spec2Isabelle
  imports Complex_Main
begin

section \<open>TracPoll: the poll state machine of index.js\<close>

text \<open>
  A shallow embedding of the class \<open>TracPoll\<close> of index.js: the in-memory poll store,
  the three event handlers \<open>_onCreate\<close>, \<open>_onVote\<close>, \<open>_onClose\<close>, the dispatcher
  \<open>_handleMessage\<close> and the listener installed by \<open>attach\<close>.

  JavaScript is dynamically typed, so payload fields are values of \<open>jsval\<close> and every
  check of the source (\<open>!id\<close>, \<open>typeof option_index !== 'number'\<close>, \<open>Array.isArray\<close>)
  is a function on \<open>jsval\<close>. Mutation of \<open>this.polls\<close> is explicit state passing;
  console output and the calls on the peer are recorded in a trace, each entry together
  with the poll store as it is at that moment.
\<close>

subsection \<open>JavaScript values\<close>

text \<open>
  A JavaScript number is an IEEE double: a finite value, \<open>NaN\<close> or an infinity. Every
  finite double is a rational and the comparisons of finite doubles are the comparisons
  of rationals, so finite numbers are modelled as \<open>rat\<close> (\<open>-0\<close> and \<open>+0\<close> are one value;
  \<open><\<close>, \<open>>=\<close>, \<open>===\<close> and Map keys do not tell them apart either).
\<close>

datatype jsnum = Num rat | NaN | PosInf | NegInf

datatype jsval =
    JUndefined
  | JNull
  | JBool bool
  | JNum jsnum
  | JStr string
  | JArr "jsval list"
  | JObj "(string \<times> jsval) list"

text \<open>\<open>!v\<close> is \<open>\<not> truthy v\<close>: the falsy values are undefined, null, false, 0, NaN and the empty string.\<close>

fun truthy :: "jsval \<Rightarrow> bool" where
  "truthy JUndefined = False"
| "truthy JNull = False"
| "truthy (JBool b) = b"
| "truthy (JNum n) = (n \<noteq> Num 0 \<and> n \<noteq> NaN)"
| "truthy (JStr s) = (s \<noteq> [])"
| "truthy (JArr xs) = True"
| "truthy (JObj kvs) = True"

text \<open>
  Reading a property of a payload (\<open>payload.type\<close>, the destructuring
  \<open>const { id, question, options, closes_at } = payload\<close>): an absent property reads as
  undefined. Only the names \<open>type\<close>, \<open>id\<close>, \<open>question\<close>, \<open>options\<close>, \<open>closes_at\<close>,
  \<open>poll_id\<close> and \<open>option_index\<close> are ever read, none of which a string, an array, a
  number or a boolean has. (On undefined and null the read would throw; \<open>_handleMessage\<close>
  returns on a falsy payload before any read.)
\<close>

fun get_prop :: "jsval \<Rightarrow> string \<Rightarrow> jsval" where
  "get_prop (JObj kvs) name = (case map_of kvs name of Some v \<Rightarrow> v | None \<Rightarrow> JUndefined)"
| "get_prop v name = JUndefined"

text \<open>The relational operators on numbers: every comparison with NaN is false.\<close>

fun js_lt :: "jsnum \<Rightarrow> jsnum \<Rightarrow> bool" where
  "js_lt NaN b = False"
| "js_lt a NaN = False"
| "js_lt (Num a) (Num b) = (a < b)"
| "js_lt (Num a) PosInf = True"
| "js_lt (Num a) NegInf = False"
| "js_lt PosInf b = False"
| "js_lt NegInf NegInf = False"
| "js_lt NegInf b = True"

fun js_ge :: "jsnum \<Rightarrow> jsnum \<Rightarrow> bool" where
  "js_ge NaN b = False"
| "js_ge a NaN = False"
| "js_ge a b = (\<not> js_lt a b)"

text \<open>\<open>a === b\<close> on numbers: NaN is not equal to itself.\<close>

definition strict_eq :: "jsnum \<Rightarrow> jsnum \<Rightarrow> bool" where
  "strict_eq a b = (a = b \<and> a \<noteq> NaN)"

subsection \<open>The poll store\<close>

record meta =
  question :: jsval
  options :: "jsval list"
  closes_at :: jsval
  creator :: string
  created_at :: int

text \<open>
  An element of the \<open>tallies\<close> array is a number, or \<open>None\<close> where the array has no
  element (a hole, which reads as undefined).
\<close>

record result =
  tallies :: "jsnum option list"
  total_votes :: nat
  closed_at :: int
  winner_index :: int
  winner_option :: jsval

text \<open>
  A poll record \<open>{ meta, votes, closed }\<close>, with \<open>result\<close> absent until \<open>_onClose\<close>
  attaches it. \<open>votes\<close> is a \<open>Map\<close> from \<open>senderHex\<close> to the \<open>option_index\<close> as
  received: an association list in insertion order, which is the order \<open>votes.values()\<close>
  iterates in.
\<close>

record poll =
  meta :: meta
  votes :: "(string \<times> jsnum) list"
  closed_flag :: bool
  result :: "result option"

type_synonym store = "(jsval \<times> poll) list"

text \<open>\<open>Map.prototype.has\<close> and \<open>set\<close> on the \<open>votes\<close> map, whose keys are strings.\<close>

definition votes_has :: "string \<Rightarrow> (string \<times> jsnum) list \<Rightarrow> bool" where
  "votes_has k m = (map_of m k \<noteq> None)"

fun votes_set :: "string \<Rightarrow> jsnum \<Rightarrow> (string \<times> jsnum) list \<Rightarrow> (string \<times> jsnum) list" where
  "votes_set k v [] = [(k, v)]"
| "votes_set k v ((k', v') # m) = (if k' = k then (k', v) # m else (k', v') # votes_set k v m)"

text \<open>
  The keys of \<open>this.polls\<close> are the \<open>id\<close> values of the payloads, compared by
  SameValueZero: primitives by value (NaN equal to itself), arrays and objects by
  reference. Each delivered payload is its own decoded object, so an array or object
  key is never the same reference as a key of an earlier message.
\<close>

fun is_primitive :: "jsval \<Rightarrow> bool" where
  "is_primitive (JArr xs) = False"
| "is_primitive (JObj kvs) = False"
| "is_primitive v = True"

definition same_value_zero :: "jsval \<Rightarrow> jsval \<Rightarrow> bool" where
  "same_value_zero a b = (is_primitive a \<and> a = b)"

fun polls_get :: "jsval \<Rightarrow> store \<Rightarrow> poll option" where
  "polls_get k [] = None"
| "polls_get k ((k', p) # m) = (if same_value_zero k' k then Some p else polls_get k m)"

definition polls_has :: "jsval \<Rightarrow> store \<Rightarrow> bool" where
  "polls_has k m = (polls_get k m \<noteq> None)"

text \<open>
  \<open>Map.prototype.set\<close>: a present key keeps its place and gets the new value, a new key
  is appended. The handlers mutate the record that \<open>this.polls.get(poll_id)\<close> returned
  in place (\<open>poll.votes.set(...)\<close>, \<open>poll.closed = true\<close>); in the model that is
  \<open>polls_set poll_id\<close> with the changed record, which replaces the entry \<open>polls_get\<close> found.
\<close>

fun polls_set :: "jsval \<Rightarrow> poll \<Rightarrow> store \<Rightarrow> store" where
  "polls_set k p [] = [(k, p)]"
| "polls_set k p ((k', p') # m) =
     (if same_value_zero k' k then (k', p) # m else (k', p') # polls_set k p m)"

text \<open>
  \<open>attach(peer, channel)\<close> stores the peer and the channel. Of the peer the handlers use
  only whether \<open>contractPut\<close> and \<open>sendSidechannel\<close> are functions.
\<close>

record peer =
  has_contractPut :: bool
  has_sendSidechannel :: bool

record tracpoll =
  polls :: store
  peer :: "peer option"
  channel :: string

definition constructor :: tracpoll where
  "constructor = \<lparr>polls = [], peer = None, channel = []\<rparr>"

definition attach :: "tracpoll \<Rightarrow> peer \<Rightarrow> string \<Rightarrow> tracpoll" where
  "attach this p ch = this\<lparr>peer := Some p, channel := ch\<rparr>"

subsection \<open>Effects\<close>

text \<open>
  A template literal such as \<open>`polls/${poll_id}/meta`\<close> is kept as its parts. It renders
  to a string where the substituted values are strings, undefined, null or booleans;
  the formatting of numbers, arrays and objects is not modelled.
\<close>

datatype tpart = Lit string | Subst jsval

fun render_part :: "tpart \<Rightarrow> string option" where
  "render_part (Lit s) = Some s"
| "render_part (Subst (JStr s)) = Some s"
| "render_part (Subst JUndefined) = Some ''undefined''"
| "render_part (Subst JNull) = Some ''null''"
| "render_part (Subst (JBool b)) = Some (if b then ''true'' else ''false'')"
| "render_part (Subst v) = None"

fun render :: "tpart list \<Rightarrow> string option" where
  "render [] = Some []"
| "render (p # ps) =
     (case render_part p of None \<Rightarrow> None
      | Some s \<Rightarrow> (case render ps of None \<Rightarrow> None | Some t \<Rightarrow> Some (s @ t)))"

text \<open>The console lines of the source, by the place they are written at (their text is not modelled).\<close>

datatype diag =
    CreateInvalidPayload
  | CreateAlreadyExists
  | PollCreated
  | VoteUnknownPoll
  | VoteAlreadyClosed
  | VoteInvalidOptionIndex
  | VoteDuplicate
  | VoteRecorded
  | CloseUnknownPoll
  | CloseAlreadyClosed
  | ClosedResult
  | TallyLine nat
  | WinnerLine
  | TallyCommitted
  | NoContractPut
  | HandlerError

text \<open>The argument of \<open>JSON.stringify\<close> in the two log writes (the serialisation itself is not modelled).\<close>

datatype stringified =
    MetaJson jsval "jsval list" int
  | ResultJson result

text \<open>The broadcast message \<open>{ type: 'poll:result', poll_id, question, options, result }\<close>.\<close>

datatype message = PollResult jsval jsval "jsval list" result

datatype effect =
    ConsoleWarn diag
  | ConsoleLog diag
  | ConsoleError diag
  | ContractPut "tpart list" stringified
  | SendSidechannel string message

fun external :: "effect \<Rightarrow> bool" where
  "external (ContractPut k v) = True"
| "external (SendSidechannel ch m) = True"
| "external e = False"

text \<open>
  What a handler call leaves behind: the instance, the trace (each effect with the poll
  store at the moment of the effect) and whether the call threw (for the async
  handlers: whether the returned promise rejected).
\<close>

record outcome =
  state :: tracpoll
  trace :: "(effect \<times> store) list"
  threw :: bool

definition start :: "tracpoll \<Rightarrow> outcome" where
  "start this = \<lparr>state = this, trace = [], threw = False\<rparr>"

text \<open>
  The argument of every console call but two is a template literal, and \<open>${v}\<close>
  converts \<open>v\<close> to a string before the call is made. The conversion of a primitive
  never throws. An object is converted by its \<open>toString\<close>, then its \<open>valueOf\<close>: a
  payload object with an own property \<open>toString\<close> (whose value, coming from a
  payload, is not a function) has no method that returns a primitive, and the
  conversion throws a TypeError; any other payload object converts to
  \<open>[object Object]\<close>. An array is converted by \<open>join\<close>, which converts every element
  other than undefined and null.
\<close>

fun throws_to_string :: "jsval \<Rightarrow> bool" where
  "throws_to_string (JObj kvs) = (map_of kvs ''toString'' \<noteq> None)"
| "throws_to_string (JArr xs) = (\<exists>x \<in> set xs. throws_to_string x)"
| "throws_to_string v = False"

text \<open>
  A console call with the payload values its template substitutes (the other
  substitutions are numbers and strings the handler computed): nothing happens after
  a throw; if a conversion throws, the handler throws there and the call is not made.
\<close>

definition emit :: "effect \<Rightarrow> jsval list \<Rightarrow> outcome \<Rightarrow> outcome" where
  "emit e substs r =
     (if threw r then r
      else if list_ex throws_to_string substs then r\<lparr>threw := True\<rparr>
      else r\<lparr>trace := trace r @ [(e, polls (state r))]\<rparr>)"

text \<open>
  \<open>await peer.f(...)\<close>: the call is made, and the handler goes on only if it fulfils
  (\<open>ok\<close>); if it throws or rejects, the rest of the handler is skipped.
\<close>

definition await_call :: "effect \<Rightarrow> bool \<Rightarrow> outcome \<Rightarrow> outcome" where
  "await_call e ok r =
     (if threw r then r else r\<lparr>trace := trace r @ [(e, polls (state r))], threw := \<not> ok\<rparr>)"

subsection \<open>\<open>_onCreate\<close>\<close>

definition is_array :: "jsval \<Rightarrow> bool" where
  "is_array v = (case v of JArr xs \<Rightarrow> True | _ \<Rightarrow> False)"

definition elements :: "jsval \<Rightarrow> jsval list" where
  "elements v = (case v of JArr xs \<Rightarrow> xs | _ \<Rightarrow> [])"

text \<open>\<open>closes_at || null\<close>\<close>

definition or_null :: "jsval \<Rightarrow> jsval" where
  "or_null v = (if truthy v then v else JNull)"

text \<open>\<open>now\<close> is the value of \<open>Date.now()\<close> during the call.\<close>

definition onCreate :: "tracpoll \<Rightarrow> jsval \<Rightarrow> string \<Rightarrow> int \<Rightarrow> outcome" where
  "onCreate this payload senderHex now =
     (let ident = get_prop payload ''id'';
          q = get_prop payload ''question'';
          opts = get_prop payload ''options'';
          closes = get_prop payload ''closes_at''
      in if \<not> truthy ident \<or> \<not> truthy q \<or> \<not> is_array opts \<or> length (elements opts) < 2
         then emit (ConsoleWarn CreateInvalidPayload) [] (start this)
         else if polls_has ident (polls this)
         then emit (ConsoleWarn CreateAlreadyExists) [ident] (start this)
         else emit (ConsoleLog PollCreated) [q, ident]
                (start (this\<lparr>polls :=
                   polls_set ident
                     \<lparr>meta = \<lparr>question = q, options = elements opts, closes_at = or_null closes,
                              creator = senderHex, created_at = now\<rparr>,
                      votes = [], closed_flag = False, result = None\<rparr>
                     (polls this)\<rparr>)))"

subsection \<open>\<open>_onVote\<close>\<close>

definition onVote :: "tracpoll \<Rightarrow> jsval \<Rightarrow> string \<Rightarrow> outcome" where
  "onVote this payload senderHex =
     (let poll_id = get_prop payload ''poll_id'';
          option_index = get_prop payload ''option_index''
      in case polls_get poll_id (polls this) of
           None \<Rightarrow> emit (ConsoleWarn VoteUnknownPoll) [poll_id] (start this)
         | Some poll \<Rightarrow>
             if closed_flag poll then emit (ConsoleWarn VoteAlreadyClosed) [poll_id] (start this)
             else (case option_index of
                     JNum n \<Rightarrow>
                       if js_lt n (Num 0) \<or> js_ge n (Num (of_nat (length (options (meta poll)))))
                       then emit (ConsoleWarn VoteInvalidOptionIndex) [option_index] (start this)
                       else if votes_has senderHex (votes poll)
                       then emit (ConsoleWarn VoteDuplicate) [] (start this)
                       else emit (ConsoleLog VoteRecorded) [poll_id, option_index]
                              (start (this\<lparr>polls :=
                                 polls_set poll_id (poll\<lparr>votes := votes_set senderHex n (votes poll)\<rparr>)
                                   (polls this)\<rparr>))
                   | _ \<Rightarrow> emit (ConsoleWarn VoteInvalidOptionIndex) [option_index] (start this)))"

subsection \<open>The tally\<close>

text \<open>
  \<open>tallies[optIdx]++\<close> on the array \<open>tallies\<close>. The number \<open>optIdx\<close> names an element
  when it is a non-negative integer (an array has fewer than \<open>2^32\<close> elements, so every
  integer below its length is an array index). Below the length the element is
  incremented. At or beyond the length JavaScript extends the array: the new element
  is \<open>undefined + 1\<close>, that is NaN, and the positions in between are holes. Any other
  number (a fraction, a negative number, NaN, an infinity) names an ordinary property
  of the array object: the elements, which are all that \<open>Math.max(...tallies)\<close>,
  \<open>indexOf\<close> and \<open>JSON.stringify\<close> read, stay as they are.
\<close>

definition array_index :: "jsnum \<Rightarrow> nat option" where
  "array_index n =
     (case n of
        Num q \<Rightarrow> if 0 \<le> q \<and> of_int \<lfloor>q\<rfloor> = q then Some (nat \<lfloor>q\<rfloor>) else None
      | _ \<Rightarrow> None)"

text \<open>ToNumber of an element read: a hole reads as undefined, which converts to NaN.\<close>

fun to_number :: "jsnum option \<Rightarrow> jsnum" where
  "to_number None = NaN"
| "to_number (Some n) = n"

text \<open>\<open>x + 1\<close> (exact below \<open>2^53\<close>, far beyond the size a Map can reach).\<close>

fun plus_one :: "jsnum \<Rightarrow> jsnum" where
  "plus_one (Num q) = Num (q + 1)"
| "plus_one n = n"

definition increment :: "jsnum option list \<Rightarrow> jsnum \<Rightarrow> jsnum option list" where
  "increment ts optIdx =
     (case array_index optIdx of
        None \<Rightarrow> ts
      | Some i \<Rightarrow>
          if i < length ts then ts[i := Some (plus_one (to_number (ts ! i)))]
          else ts @ replicate (i - length ts) None @ [Some NaN])"

text \<open>\<open>new Array(n).fill(0)\<close>, then \<open>for (const optIdx of poll.votes.values()) tallies[optIdx]++\<close>.\<close>

definition count_votes :: "nat \<Rightarrow> (string \<times> jsnum) list \<Rightarrow> jsnum option list" where
  "count_votes n vs = foldl increment (replicate n (Some (Num 0))) (map snd vs)"

text \<open>\<open>Math.max(...tallies)\<close>: \<open>-Infinity\<close> for no argument, NaN as soon as one argument is NaN.\<close>

fun js_max :: "jsnum \<Rightarrow> jsnum \<Rightarrow> jsnum" where
  "js_max NaN b = NaN"
| "js_max a NaN = NaN"
| "js_max a b = (if js_lt a b then b else a)"

definition math_max :: "jsnum option list \<Rightarrow> jsnum" where
  "math_max xs = foldl js_max NegInf (map to_number xs)"

text \<open>\<open>tallies.indexOf(v)\<close>: the first index whose element is \<open>=== v\<close>, or \<open>-1\<close>.\<close>

fun index_from :: "nat \<Rightarrow> jsnum option list \<Rightarrow> jsnum \<Rightarrow> int" where
  "index_from i [] v = - 1"
| "index_from i (x # xs) v =
     (case x of
        Some n \<Rightarrow> if strict_eq n v then int i else index_from (Suc i) xs v
      | None \<Rightarrow> index_from (Suc i) xs v)"

definition indexOf :: "jsnum option list \<Rightarrow> jsnum \<Rightarrow> int" where
  "indexOf xs v = index_from 0 xs v"

text \<open>\<open>poll.meta.options[i]\<close>: undefined outside the array (\<open>i = -1\<close> when \<open>indexOf\<close> found nothing).\<close>

definition element_at :: "jsval list \<Rightarrow> int \<Rightarrow> jsval" where
  "element_at xs i = (if 0 \<le> i \<and> i < int (length xs) then xs ! nat i else JUndefined)"

definition compute_result :: "poll \<Rightarrow> int \<Rightarrow> result" where
  "compute_result poll now =
     (let ts = count_votes (length (options (meta poll))) (votes poll)
      in \<lparr>tallies = ts,
          total_votes = length (votes poll),
          closed_at = now,
          winner_index = indexOf ts (math_max ts),
          winner_option = element_at (options (meta poll)) (indexOf ts (math_max ts))\<rparr>)"

subsection \<open>\<open>_onClose\<close>\<close>

definition meta_key :: "jsval \<Rightarrow> tpart list" where
  "meta_key poll_id = [Lit ''polls/'', Subst poll_id, Lit ''/meta'']"

definition result_key :: "jsval \<Rightarrow> tpart list" where
  "result_key poll_id = [Lit ''polls/'', Subst poll_id, Lit ''/result'']"

definition put_meta :: "jsval \<Rightarrow> poll \<Rightarrow> effect" where
  "put_meta poll_id poll =
     ContractPut (meta_key poll_id)
       (MetaJson (question (meta poll)) (options (meta poll)) (created_at (meta poll)))"

definition put_result :: "jsval \<Rightarrow> result \<Rightarrow> effect" where
  "put_result poll_id res = ContractPut (result_key poll_id) (ResultJson res)"

definition broadcast :: "string \<Rightarrow> jsval \<Rightarrow> poll \<Rightarrow> result \<Rightarrow> effect" where
  "broadcast ch poll_id poll res =
     SendSidechannel ch (PollResult poll_id (question (meta poll)) (options (meta poll)) res)"

text \<open>
  The console lines after the mutation: the header with \<open>${poll_id}\<close>, then
  \<open>poll.meta.options.forEach((opt, i) => ...)\<close> with one line per option that
  substitutes \<open>${opt}\<close>, then the winner line with \<open>${result.winner_option}\<close>.
\<close>

definition log_result :: "jsval \<Rightarrow> poll \<Rightarrow> result \<Rightarrow> outcome \<Rightarrow> outcome" where
  "log_result poll_id poll res r =
     emit (ConsoleLog WinnerLine) [winner_option res]
       (foldl (\<lambda>r' (i, opt). emit (ConsoleLog (TallyLine i)) [opt] r')
          (emit (ConsoleLog ClosedResult) [poll_id] r)
          (zip [0..<length (options (meta poll))] (options (meta poll))))"

text \<open>\<open>this.peer && typeof this.peer.contractPut === 'function'\<close>, and the same for \<open>sendSidechannel\<close>.\<close>

definition can_contractPut :: "tracpoll \<Rightarrow> bool" where
  "can_contractPut this = (case peer this of None \<Rightarrow> False | Some p \<Rightarrow> has_contractPut p)"

definition can_sendSidechannel :: "tracpoll \<Rightarrow> bool" where
  "can_sendSidechannel this = (case peer this of None \<Rightarrow> False | Some p \<Rightarrow> has_sendSidechannel p)"

text \<open>
  \<open>io e\<close> says whether the external call \<open>e\<close> fulfils when this handler makes it; it
  is chosen by the environment, so the handler takes it as an argument.
\<close>

definition onClose :: "tracpoll \<Rightarrow> jsval \<Rightarrow> string \<Rightarrow> int \<Rightarrow> (effect \<Rightarrow> bool) \<Rightarrow> outcome" where
  "onClose this payload senderHex now io =
     (let poll_id = get_prop payload ''poll_id''
      in case polls_get poll_id (polls this) of
           None \<Rightarrow> emit (ConsoleWarn CloseUnknownPoll) [poll_id] (start this)
         | Some poll \<Rightarrow>
             if closed_flag poll then emit (ConsoleWarn CloseAlreadyClosed) [poll_id] (start this)
             else
               let res = compute_result poll now;
                   this' = this\<lparr>polls :=
                     polls_set poll_id (poll\<lparr>closed_flag := True, result := Some res\<rparr>) (polls this)\<rparr>;
                   r1 = log_result poll_id poll res (start this');
                   r2 = (if can_contractPut this'
                         then emit (ConsoleLog TallyCommitted) [poll_id]
                                (await_call (put_result poll_id res) (io (put_result poll_id res))
                                  (await_call (put_meta poll_id poll) (io (put_meta poll_id poll)) r1))
                         else emit (ConsoleWarn NoContractPut) [] r1)
               in if can_sendSidechannel this'
                  then await_call (broadcast (channel this') poll_id poll res)
                         (io (broadcast (channel this') poll_id poll res)) r2
                  else r2)"

subsection \<open>\<open>_handleMessage\<close> and the listener of \<open>attach\<close>\<close>

text \<open>
  \<open>senderHex\<close> is the sender key as the handlers see it, after
  \<open>Buffer.isBuffer(senderKey) ? senderKey.toString('hex') : String(senderKey)\<close>; a key
  whose conversion throws reaches no handler and is not an input of the model.
\<close>

definition handleMessage ::
  "tracpoll \<Rightarrow> jsval \<Rightarrow> string \<Rightarrow> int \<Rightarrow> (effect \<Rightarrow> bool) \<Rightarrow> outcome" where
  "handleMessage this payload senderHex now io =
     (if \<not> truthy payload \<or> \<not> truthy (get_prop payload ''type'') then start this
      else if get_prop payload ''type'' = JStr ''poll:create'' then onCreate this payload senderHex now
      else if get_prop payload ''type'' = JStr ''poll:vote'' then onVote this payload senderHex
      else if get_prop payload ''type'' = JStr ''poll:close'' then onClose this payload senderHex now io
      else start this)"

text \<open>
  A delivered \<open>sidechannel:message\<close>: channel, payload, sender, with the clock and the
  behaviour of the external calls during its handling.
\<close>

record event =
  ev_channel :: string
  ev_payload :: jsval
  ev_sender :: string
  ev_now :: int
  ev_io :: "effect \<Rightarrow> bool"

text \<open>
  The listener: other channels are ignored, a rejected handler is caught and logged
  (\<open>console.error\<close> with the error as a second argument, no template).
\<close>

definition on_message :: "tracpoll \<Rightarrow> event \<Rightarrow> outcome" where
  "on_message this ev =
     (if ev_channel ev \<noteq> channel this then start this
      else let r = handleMessage this (ev_payload ev) (ev_sender ev) (ev_now ev) (ev_io ev)
           in if threw r
              then r\<lparr>trace := trace r @ [(ConsoleError HandlerError, polls (state r))], threw := False\<rparr>
              else r)"

text \<open>
  The instance after a sequence of delivered events. \<open>_onClose\<close> changes the store
  before its first \<open>await\<close> and never after, so handlers that run while it is
  suspended see the store it leaves: for the store, handling the events one after the
  other is what the event loop does.
\<close>

definition deliver :: "tracpoll \<Rightarrow> event list \<Rightarrow> tracpoll" where
  "deliver this evs = foldl (\<lambda>s ev. state (on_message s ev)) this evs"

subsection \<open>The query surface\<close>

record snapshot =
  snap_meta :: meta
  snap_total_votes :: nat
  snap_closed :: bool
  snap_result :: "result option"

definition getPoll :: "tracpoll \<Rightarrow> jsval \<Rightarrow> snapshot option" where
  "getPoll this pollId =
     (case polls_get pollId (polls this) of
        None \<Rightarrow> None
      | Some poll \<Rightarrow>
          Some \<lparr>snap_meta = meta poll, snap_total_votes = length (votes poll),
                snap_closed = closed_flag poll, snap_result = result poll\<rparr>)"

definition listPolls :: "tracpoll \<Rightarrow> jsval list" where
  "listPolls this = map fst (polls this)"

subsection \<open>Notions used in the statements\<close>

text \<open>A tally element holding the count \<open>c\<close>.\<close>

definition nat_tally :: "nat \<Rightarrow> jsnum option" where
  "nat_tally c = Some (Num (of_nat c))"

text \<open>
  The numbers that pass the range check of \<open>_onVote\<close> for a poll with \<open>n\<close> options:
  neither \<open>option_index < 0\<close> nor \<open>option_index >= n\<close>.
\<close>

definition accepted_index :: "nat \<Rightarrow> jsnum \<Rightarrow> bool" where
  "accepted_index n v = (\<not> js_lt v (Num 0) \<and> \<not> js_ge v (Num (of_nat n)))"

text \<open>How many of the recorded option indices name element \<open>i\<close>.\<close>

definition count_for :: "jsnum list \<Rightarrow> nat \<Rightarrow> nat" where
  "count_for vs i = length (filter (\<lambda>v. array_index v = Some i) vs)"

text \<open>What holds of every poll record in a store that started empty.\<close>

definition poll_inv :: "poll \<Rightarrow> bool" where
  "poll_inv p =
     (2 \<le> length (options (meta p))
      \<and> (\<forall>v \<in> set (map snd (votes p)). accepted_index (length (options (meta p))) v)
      \<and> distinct (map fst (votes p))
      \<and> (closed_flag p \<longleftrightarrow> result p \<noteq> None)
      \<and> (\<forall>r. result p = Some r \<longrightarrow> (\<exists>t. r = compute_result p t)))"

definition store_inv :: "store \<Rightarrow> bool" where
  "store_inv m = (\<forall>p \<in> set (map snd m). poll_inv p)"

text \<open>
  How a poll record may differ between an earlier and a later moment: the meta is the
  same, a closed record is the same record, and the votes of the earlier moment are a
  prefix of the later ones.
\<close>

definition evolves :: "poll \<Rightarrow> poll \<Rightarrow> bool" where
  "evolves p p' =
     (meta p' = meta p
      \<and> (closed_flag p \<longrightarrow> p' = p)
      \<and> (\<exists>new. votes p' = votes p @ new))"

text \<open>The same for stores: every entry keeps its place and its key, and its record evolves.\<close>

definition store_le :: "store \<Rightarrow> store \<Rightarrow> bool" where
  "store_le m m' =
     (length m \<le> length m'
      \<and> (\<forall>i<length m. fst (m' ! i) = fst (m ! i) \<and> evolves (snd (m ! i)) (snd (m' ! i))))"

subsection \<open>Messages and instances used as examples\<close>

text \<open>The three payloads in the shape SKILL.md documents.\<close>

definition create_payload :: "jsval \<Rightarrow> jsval \<Rightarrow> jsval list \<Rightarrow> jsval" where
  "create_payload ident q opts =
     JObj [(''type'', JStr ''poll:create''), (''id'', ident), (''question'', q),
           (''options'', JArr opts)]"

definition vote_payload :: "jsval \<Rightarrow> jsval \<Rightarrow> jsval" where
  "vote_payload poll_id option_index =
     JObj [(''type'', JStr ''poll:vote''), (''poll_id'', poll_id),
           (''option_index'', option_index)]"

definition close_payload :: "jsval \<Rightarrow> jsval" where
  "close_payload poll_id = JObj [(''type'', JStr ''poll:close''), (''poll_id'', poll_id)]"

text \<open>An environment in which every external call fulfils.\<close>

definition io_ok :: "effect \<Rightarrow> bool" where
  "io_ok e = True"

definition full_peer :: peer where
  "full_peer = \<lparr>has_contractPut = True, has_sendSidechannel = True\<rparr>"

text \<open>An attached instance, and the same after \<open>poll:create\<close> of poll \<open>p1\<close> with options A, B, C.\<close>

definition attached :: tracpoll where
  "attached = attach constructor full_peer ''tracpoll-votes''"

definition abc_meta :: meta where
  "abc_meta = \<lparr>question = JStr ''Q'', options = [JStr ''A'', JStr ''B'', JStr ''C''],
               closes_at = JNull, creator = ''peer0'', created_at = 1\<rparr>"

definition abc_open :: tracpoll where
  "abc_open = state (onCreate attached
      (create_payload (JStr ''p1'') (JStr ''Q'') [JStr ''A'', JStr ''B'', JStr ''C'']) ''peer0'' 1)"

text \<open>Two voters pick options 0 and 1 of \<open>p1\<close>; then the poll is closed at time 9.\<close>

definition abc_voted :: tracpoll where
  "abc_voted = state (onVote
      (state (onVote abc_open (vote_payload (JStr ''p1'') (JNum (Num 0))) ''peerA''))
      (vote_payload (JStr ''p1'') (JNum (Num 1))) ''peerB'')"

definition abc_result :: result where
  "abc_result = \<lparr>tallies = [Some (Num 1), Some (Num 1), Some (Num 0)], total_votes = 2,
                 closed_at = 9, winner_index = 0, winner_option = JStr ''A''\<rparr>"

definition abc_closed :: tracpoll where
  "abc_closed = state (onClose abc_voted (close_payload (JStr ''p1'')) ''peer0'' 9 io_ok)"

text \<open>The same run as delivered events, and a vote that arrives after the close.\<close>

definition mk_event :: "jsval \<Rightarrow> string \<Rightarrow> int \<Rightarrow> event" where
  "mk_event payload sender now =
     \<lparr>ev_channel = ''tracpoll-votes'', ev_payload = payload, ev_sender = sender, ev_now = now,
      ev_io = io_ok\<rparr>"

definition abc_events :: "event list" where
  "abc_events =
     [mk_event (create_payload (JStr ''p1'') (JStr ''Q'') [JStr ''A'', JStr ''B'', JStr ''C'']) ''peer0'' 1,
      mk_event (vote_payload (JStr ''p1'') (JNum (Num 0))) ''peerA'' 2,
      mk_event (vote_payload (JStr ''p1'') (JNum (Num 1))) ''peerB'' 3,
      mk_event (close_payload (JStr ''p1'')) ''peer0'' 9]"

definition late_vote :: event where
  "late_vote = mk_event (vote_payload (JStr ''p1'') (JNum (Num 2))) ''peerC'' 10"

text \<open>
  Further inputs: nine options; a peer without \<open>contractPut\<close> and the run of
  \<open>abc_voted\<close> on an instance attached to it; the poll records of the runs; a vote
  for option 0.5 on the open poll; three votes.
\<close>

definition nine_options :: "jsval list" where
  "nine_options = [JStr ''a'', JStr ''b'', JStr ''c'', JStr ''d'', JStr ''e'', JStr ''f'',
                   JStr ''g'', JStr ''h'', JStr ''i'']"

definition bare_peer :: peer where
  "bare_peer = \<lparr>has_contractPut = False, has_sendSidechannel = True\<rparr>"

definition bare_voted :: tracpoll where
  "bare_voted = state (onVote (state (onVote (state (onCreate
      (attach constructor bare_peer ''tracpoll-votes'')
      (create_payload (JStr ''p1'') (JStr ''Q'') [JStr ''A'', JStr ''B'', JStr ''C'']) ''peer0'' 1))
      (vote_payload (JStr ''p1'') (JNum (Num 0))) ''peerA''))
      (vote_payload (JStr ''p1'') (JNum (Num 1))) ''peerB'')"

definition abc_votes_poll :: poll where
  "abc_votes_poll = \<lparr>meta = abc_meta, votes = [(''peerA'', Num 0), (''peerB'', Num 1)],
                     closed_flag = False, result = None\<rparr>"

definition abc_half_voted :: tracpoll where
  "abc_half_voted = state (onVote abc_open (vote_payload (JStr ''p1'') (JNum (Num (1 / 2)))) ''peerA'')"

definition three_votes :: "(string \<times> nat) list" where
  "three_votes = [(''peerA'', 1), (''peerB'', 0), (''peerC'', 1)]"

definition abc_empty_poll :: poll where
  "abc_empty_poll = \<lparr>meta = abc_meta, votes = [], closed_flag = False, result = None\<rparr>"

section \<open>Properties\<close>

subsection \<open>The tally and the winner\<close>

lemma accepted_index_cases:
  "accepted_index n v \<Longrightarrow> v = NaN \<or> (\<exists>q. v = Num q \<and> 0 \<le> q \<and> q < of_nat n)"
  by (cases v) (auto simp: accepted_index_def)

lemma array_index_bound:
  assumes "accepted_index n v" "array_index v = Some i"
  shows "i < n"
proof -
  from assms obtain q where q: "v = Num q" "0 \<le> q" "q < of_nat n"
    using accepted_index_cases[OF assms(1)] by (auto simp: array_index_def)
  from assms(2) q have i: "i = nat \<lfloor>q\<rfloor>" "of_int \<lfloor>q\<rfloor> = q"
    by (auto simp: array_index_def split: if_splits)
  have "\<lfloor>q\<rfloor> < int n" using q(3) by (simp add: floor_less_iff)
  moreover have "0 \<le> \<lfloor>q\<rfloor>" using q(2) by simp
  ultimately have "nat \<lfloor>q\<rfloor> < n" by linarith
  with i(1) show ?thesis by simp
qed

lemma increment_nat_tally:
  assumes "accepted_index (length cs) v"
  shows "increment (map nat_tally cs) v =
    map nat_tally (case array_index v of None \<Rightarrow> cs | Some i \<Rightarrow> cs[i := Suc (cs ! i)])"
proof (cases "array_index v")
  case None
  then show ?thesis by (simp add: increment_def)
next
  case (Some i)
  then have "i < length cs" using array_index_bound[OF assms] by simp
  with Some show ?thesis
    by (simp add: increment_def nat_tally_def map_update add.commute)
qed

lemma foldl_increment:
  assumes "\<forall>v \<in> set vs. accepted_index (length cs) v"
  shows "foldl increment (map nat_tally cs) vs =
    map nat_tally (map (\<lambda>i. cs ! i + count_for vs i) [0..<length cs])"
  using assms
proof (induction vs arbitrary: cs)
  case Nil
  then show ?case by (simp add: count_for_def map_nth)
next
  case (Cons v vs)
  let ?cs' = "case array_index v of None \<Rightarrow> cs | Some i \<Rightarrow> cs[i := Suc (cs ! i)]"
  have len: "length ?cs' = length cs" by (simp split: option.splits)
  have step: "increment (map nat_tally cs) v = map nat_tally ?cs'"
    using Cons.prems by (simp add: increment_nat_tally)
  have "foldl increment (map nat_tally ?cs') vs =
      map nat_tally (map (\<lambda>i. ?cs' ! i + count_for vs i) [0..<length ?cs'])"
    using Cons.prems by (intro Cons.IH) (simp add: len)
  moreover have "map (\<lambda>i. ?cs' ! i + count_for vs i) [0..<length cs] =
      map (\<lambda>i. cs ! i + count_for (v # vs) i) [0..<length cs]"
    by (rule map_cong) (auto simp: count_for_def nth_list_update split: option.splits)
  ultimately show ?case by (simp add: step len)
qed

lemma count_votes_counts:
  assumes "\<forall>v \<in> set (map snd vs). accepted_index n v"
  shows "count_votes n vs = map (\<lambda>i. nat_tally (count_for (map snd vs) i)) [0..<n]"
proof -
  have "nat_tally 0 = Some (Num 0)"
    by (simp add: nat_tally_def)
  then have "count_votes n vs = foldl increment (map nat_tally (replicate n 0)) (map snd vs)"
    by (simp add: count_votes_def)
  also have "\<dots> = map nat_tally (map (\<lambda>i. replicate n 0 ! i + count_for (map snd vs) i) [0..<length (replicate n (0::nat))])"
    using assms by (intro foldl_increment) simp
  also have "\<dots> = map (\<lambda>i. nat_tally (count_for (map snd vs) i)) [0..<n]"
    by simp
  finally show ?thesis .
qed

lemma foldl_js_max_nat:
  "foldl js_max (Num (of_nat a)) (map to_number (map nat_tally cs)) = Num (of_nat (foldl max a cs))"
proof (induction cs arbitrary: a)
  case Nil
  then show ?case by simp
next
  case (Cons c cs)
  have "js_max (Num (of_nat a)) (Num (of_nat c)) = Num (of_nat (max a c))"
    by (simp add: max_def)
  then show ?case using Cons.IH[of "max a c"] by (simp add: nat_tally_def)
qed

lemma math_max_nat:
  "math_max (map nat_tally (c # cs)) = Num (of_nat (foldl max c cs))"
  using foldl_js_max_nat[of c cs] by (simp add: math_max_def nat_tally_def)

lemma foldl_max_ge: "a \<le> foldl max a cs \<and> (\<forall>c \<in> set cs. c \<le> foldl max (a::nat) cs)"
proof (induction cs arbitrary: a)
  case Nil
  then show ?case by simp
next
  case (Cons c cs)
  from Cons.IH[of "max a c"] show ?case by auto
qed

lemma foldl_max_mem: "foldl max (a::nat) cs \<in> set (a # cs)"
proof (induction cs arbitrary: a)
  case Nil
  then show ?case by simp
next
  case (Cons c cs)
  from Cons.IH[of "max a c"] show ?case by (auto simp: max_def split: if_splits)
qed

lemma index_from_nat:
  assumes "m \<in> set cs"
  shows "\<exists>i<length cs. index_from k (map nat_tally cs) (Num (of_nat m)) = int (k + i)
     \<and> cs ! i = m \<and> (\<forall>j<i. cs ! j \<noteq> m)"
  using assms
proof (induction cs arbitrary: k)
  case Nil
  then show ?case by simp
next
  case (Cons c cs)
  show ?case
  proof (cases "c = m")
    case True
    then show ?thesis
      by (intro exI[of _ 0]) (simp add: nat_tally_def strict_eq_def)
  next
    case False
    with Cons.prems have "m \<in> set cs" by simp
    from Cons.IH[OF this, of "Suc k"] obtain i where i: "i < length cs"
      "index_from (Suc k) (map nat_tally cs) (Num (of_nat m)) = int (Suc k + i)"
      "cs ! i = m" "\<forall>j<i. cs ! j \<noteq> m" by blast
    show ?thesis
    proof (intro exI[of _ "Suc i"] conjI allI impI)
      show "Suc i < length (c # cs)" using i(1) by simp
      show "index_from k (map nat_tally (c # cs)) (Num (of_nat m)) = int (k + Suc i)"
        using False i(2) by (simp add: nat_tally_def strict_eq_def)
      show "(c # cs) ! Suc i = m" using i(3) by simp
      fix j assume "j < Suc i"
      then show "(c # cs) ! j \<noteq> m" using False i(4) by (cases j) auto
    qed
  qed
qed

lemma winner_least_max:
  assumes "cs \<noteq> []"
  shows "\<exists>w<length cs. indexOf (map nat_tally cs) (math_max (map nat_tally cs)) = int w
    \<and> (\<forall>j<length cs. cs ! j \<le> cs ! w) \<and> (\<forall>j<w. cs ! j < cs ! w)"
proof -
  from assms obtain c cs' where cs: "cs = c # cs'" by (cases cs) auto
  let ?m = "foldl max c cs'"
  have mm: "math_max (map nat_tally cs) = Num (of_nat ?m)"
    unfolding cs by (rule math_max_nat)
  have mem: "?m \<in> set cs" unfolding cs by (rule foldl_max_mem)
  have ge: "\<forall>x \<in> set cs. x \<le> ?m" unfolding cs using foldl_max_ge[of c cs'] by simp
  from index_from_nat[OF mem, of 0] obtain w where w: "w < length cs"
    "index_from 0 (map nat_tally cs) (Num (of_nat ?m)) = int w" "cs ! w = ?m" "\<forall>j<w. cs ! j \<noteq> ?m"
    by auto
  have "\<forall>j<length cs. cs ! j \<le> cs ! w" using ge w(3) by simp
  moreover have "\<forall>j<w. cs ! j < cs ! w"
  proof (intro allI impI)
    fix j assume j: "j < w"
    then have "cs ! j \<le> ?m" using ge w(1) by simp
    moreover have "cs ! j \<noteq> ?m" using w(4) j by simp
    ultimately show "cs ! j < cs ! w" using w(3) by simp
  qed
  ultimately show ?thesis using w(1,2) mm by (auto simp: indexOf_def)
qed

subsection \<open>The store under the handlers\<close>

lemma state_emit: "state (emit e ss r) = state r"
  by (simp add: emit_def)

lemma state_await_call: "state (await_call e ok r) = state r"
  by (simp add: await_call_def)

lemma state_foldl_emit: "state (foldl (\<lambda>r' x. emit (f x) (g x) r') r xs) = state r"
  by (induction xs arbitrary: r) (simp_all add: state_emit)

lemma state_log_result: "state (log_result pid p res r) = state r"
  by (simp add: log_result_def case_prod_unfold state_emit state_foldl_emit)

lemma state_start: "state (start this) = this"
  by (simp add: start_def)

lemma polls_get_key: "polls_get k m = Some p \<Longrightarrow> is_primitive k"
  by (induction m) (auto simp: same_value_zero_def split: if_splits)

lemma polls_set_found:
  "polls_get k m = Some p \<Longrightarrow> \<exists>i<length m. m ! i = (k, p) \<and> polls_set k p' m = m[i := (k, p')]"
proof (induction m)
  case Nil
  then show ?case by simp
next
  case (Cons a m)
  obtain k0 p0 where a: "a = (k0, p0)" by (cases a)
  show ?case
  proof (cases "same_value_zero k0 k")
    case True
    with Cons.prems a show ?thesis
      by (intro exI[of _ 0]) (auto simp: same_value_zero_def)
  next
    case False
    with Cons.prems a have "polls_get k m = Some p" by simp
    from Cons.IH[OF this] obtain i where "i < length m" "m ! i = (k, p)"
      "polls_set k p' m = m[i := (k, p')]" by blast
    with False a show ?thesis
      by (intro exI[of _ "Suc i"]) simp
  qed
qed

lemma polls_set_new: "polls_get k m = None \<Longrightarrow> polls_set k p' m = m @ [(k, p')]"
  by (induction m) (auto split: if_splits)

lemma polls_get_set: "is_primitive k \<Longrightarrow> polls_get k (polls_set k p' m) = Some p'"
  by (induction m) (auto simp: same_value_zero_def)

lemma polls_get_mem: "polls_get k m = Some p \<Longrightarrow> p \<in> set (map snd m)"
  by (induction m) (auto split: if_splits)

lemma votes_set_new: "\<not> votes_has k m \<Longrightarrow> votes_set k v m = m @ [(k, v)]"
  by (induction m) (auto simp: votes_has_def split: if_splits)

lemma votes_has_keys: "votes_has k m \<longleftrightarrow> k \<in> set (map fst m)"
  by (simp add: votes_has_def map_of_eq_None_iff)

lemma state_onCreate:
  "state (onCreate this payload senderHex now) =
     (if \<not> truthy (get_prop payload ''id'') \<or> \<not> truthy (get_prop payload ''question'')
         \<or> \<not> is_array (get_prop payload ''options'')
         \<or> length (elements (get_prop payload ''options'')) < 2
         \<or> polls_has (get_prop payload ''id'') (polls this)
      then this
      else this\<lparr>polls := polls (this) @
             [(get_prop payload ''id'',
               \<lparr>meta = \<lparr>question = get_prop payload ''question'',
                        options = elements (get_prop payload ''options''),
                        closes_at = or_null (get_prop payload ''closes_at''),
                        creator = senderHex, created_at = now\<rparr>,
                votes = [], closed_flag = False, result = None\<rparr>)]\<rparr>)"
  by (simp add: onCreate_def Let_def polls_has_def polls_set_new state_emit state_start)

lemma state_onVote:
  "state (onVote this payload senderHex) =
     (case polls_get (get_prop payload ''poll_id'') (polls this) of
        None \<Rightarrow> this
      | Some poll \<Rightarrow>
          (case get_prop payload ''option_index'' of
             JNum n \<Rightarrow>
               if closed_flag poll \<or> \<not> accepted_index (length (options (meta poll))) n
                  \<or> votes_has senderHex (votes poll)
               then this
               else this\<lparr>polls := polls_set (get_prop payload ''poll_id'')
                      (poll\<lparr>votes := votes poll @ [(senderHex, n)]\<rparr>) (polls this)\<rparr>
           | _ \<Rightarrow> this))"
  by (simp add: onVote_def Let_def accepted_index_def votes_set_new state_emit state_start
      split: option.splits jsval.splits)

lemma state_onClose:
  "state (onClose this payload senderHex now io) =
     (case polls_get (get_prop payload ''poll_id'') (polls this) of
        None \<Rightarrow> this
      | Some poll \<Rightarrow>
          if closed_flag poll then this
          else this\<lparr>polls := polls_set (get_prop payload ''poll_id'')
                 (poll\<lparr>closed_flag := True, result := Some (compute_result poll now)\<rparr>) (polls this)\<rparr>)"
  by (simp add: onClose_def Let_def state_emit state_await_call state_log_result state_start split: option.splits)

lemma state_handleMessage:
  "state (handleMessage this payload senderHex now io) = this
   \<or> state (handleMessage this payload senderHex now io) = state (onCreate this payload senderHex now)
   \<or> state (handleMessage this payload senderHex now io) = state (onVote this payload senderHex)
   \<or> state (handleMessage this payload senderHex now io) = state (onClose this payload senderHex now io)"
  by (simp add: handleMessage_def state_emit state_await_call state_log_result state_start)

lemma state_on_message:
  "state (on_message this ev) = this
   \<or> state (on_message this ev) = state (handleMessage this (ev_payload ev) (ev_sender ev) (ev_now ev) (ev_io ev))"
  by (simp add: on_message_def Let_def state_emit state_await_call state_log_result state_start)

text \<open>One delivered event changes the store in one of three ways, or not at all.\<close>

lemma on_message_step:
  obtains (same) "state (on_message this ev) = this"
  | (created) k p where "polls_get k (polls this) = None" "2 \<le> length (options (meta p))"
      "votes p = []" "\<not> closed_flag p" "result p = None"
      "state (on_message this ev) = this\<lparr>polls := polls this @ [(k, p)]\<rparr>"
  | (voted) k p sender n where "polls_get k (polls this) = Some p" "\<not> closed_flag p"
      "accepted_index (length (options (meta p))) n" "\<not> votes_has sender (votes p)"
      "state (on_message this ev) =
         this\<lparr>polls := polls_set k (p\<lparr>votes := votes p @ [(sender, n)]\<rparr>) (polls this)\<rparr>"
  | (closed) k p t where "polls_get k (polls this) = Some p" "\<not> closed_flag p"
      "state (on_message this ev) =
         this\<lparr>polls := polls_set k (p\<lparr>closed_flag := True, result := Some (compute_result p t)\<rparr>) (polls this)\<rparr>"
proof -
  let ?pl = "ev_payload ev" and ?s = "ev_sender ev" and ?t = "ev_now ev" and ?io = "ev_io ev"
  consider "state (on_message this ev) = this"
    | "state (on_message this ev) = state (onCreate this ?pl ?s ?t)"
    | "state (on_message this ev) = state (onVote this ?pl ?s)"
    | "state (on_message this ev) = state (onClose this ?pl ?s ?t ?io)"
    using state_on_message[of this ev] state_handleMessage[of this ?pl ?s ?t ?io] by auto
  then show ?thesis
  proof cases
    case 1
    then show ?thesis by (rule same)
  next
    case 2
    show ?thesis
    proof (cases "state (onCreate this ?pl ?s ?t) = this")
      case True
      with 2 show ?thesis by (intro same) simp
    next
      case False
      then show ?thesis
        using 2 by (intro created[of "get_prop ?pl ''id''" _])
          (auto simp: state_onCreate polls_has_def split: if_splits)
    qed
  next
    case 3
    show ?thesis
    proof (cases "state (onVote this ?pl ?s) = this")
      case True
      with 3 show ?thesis by (intro same) simp
    next
      case False
      then obtain p n where "polls_get (get_prop ?pl ''poll_id'') (polls this) = Some p"
        "get_prop ?pl ''option_index'' = JNum n" "\<not> closed_flag p"
        "accepted_index (length (options (meta p))) n" "\<not> votes_has ?s (votes p)"
        by (auto simp: state_onVote split: option.splits jsval.splits if_splits)
      then show ?thesis
        using 3 by (intro voted[of "get_prop ?pl ''poll_id''" p n ?s]) (auto simp: state_onVote)
    qed
  next
    case 4
    show ?thesis
    proof (cases "state (onClose this ?pl ?s ?t ?io) = this")
      case True
      with 4 show ?thesis by (intro same) simp
    next
      case False
      then obtain p where "polls_get (get_prop ?pl ''poll_id'') (polls this) = Some p"
        "\<not> closed_flag p"
        by (auto simp: state_onClose split: option.splits if_splits)
      then show ?thesis
        using 4 by (intro closed[of "get_prop ?pl ''poll_id''" p ?t]) (auto simp: state_onClose)
    qed
  qed
qed

lemma store_inv_append: "store_inv m \<Longrightarrow> poll_inv p \<Longrightarrow> store_inv (m @ [(k, p)])"
  by (auto simp: store_inv_def)

lemma store_inv_update:
  "store_inv m \<Longrightarrow> poll_inv p \<Longrightarrow> store_inv (m[i := (k, p)])"
  unfolding store_inv_def
  by (auto dest!: set_update_subset_insert[THEN subsetD])

lemma store_inv_polls_set:
  assumes "store_inv m" "poll_inv p'"
  shows "store_inv (polls_set k p' m)"
proof (cases "polls_get k m")
  case None
  then show ?thesis using assms by (simp add: polls_set_new store_inv_append)
next
  case (Some p)
  from polls_set_found[OF this, of p'] obtain i where "polls_set k p' m = m[i := (k, p')]"
    by blast
  then show ?thesis using assms by (simp add: store_inv_update)
qed

lemma polls_get_inv: "store_inv m \<Longrightarrow> polls_get k m = Some p \<Longrightarrow> poll_inv p"
  unfolding store_inv_def using polls_get_mem by blast

lemma on_message_inv:
  assumes "store_inv (polls this)"
  shows "store_inv (polls (state (on_message this ev)))"
proof (cases rule: on_message_step[of this ev])
  case same
  then show ?thesis using assms by simp
next
  case (created k p)
  then have "poll_inv p" by (simp add: poll_inv_def)
  with created assms show ?thesis by (simp add: store_inv_append)
next
  case (voted k p sender n)
  have "poll_inv p" using assms voted(1) by (rule polls_get_inv)
  then have "poll_inv (p\<lparr>votes := votes p @ [(sender, n)]\<rparr>)"
    using voted(2,3,4)
    by (auto simp: poll_inv_def votes_has_keys compute_result_def)
  with voted assms show ?thesis by (simp add: store_inv_polls_set)
next
  case (closed k p t)
  have "poll_inv p" using assms closed(1) by (rule polls_get_inv)
  then have "poll_inv (p\<lparr>closed_flag := True, result := Some (compute_result p t)\<rparr>)"
    by (auto simp: poll_inv_def compute_result_def)
  with closed assms show ?thesis by (simp add: store_inv_polls_set)
qed

lemma deliver_snoc: "deliver this (evs @ [ev]) = state (on_message (deliver this evs) ev)"
  by (simp add: deliver_def)

lemma deliver_inv:
  assumes "store_inv (polls this)"
  shows "store_inv (polls (deliver this evs))"
proof (induction evs rule: rev_induct)
  case Nil
  then show ?case using assms by (simp add: deliver_def)
next
  case (snoc ev evs)
  then show ?case by (simp add: deliver_snoc on_message_inv)
qed

lemma store_inv_empty: "store_inv []"
  by (simp add: store_inv_def)

subsection \<open>The example instances, evaluated\<close>

lemma abc_open_eq:
  "abc_open = \<lparr>polls = [(JStr ''p1'', \<lparr>meta = abc_meta, votes = [], closed_flag = False, result = None\<rparr>)],
     peer = Some full_peer, channel = ''tracpoll-votes''\<rparr>"
  by (simp add: abc_open_def abc_meta_def attached_def attach_def constructor_def state_onCreate
      create_payload_def is_array_def elements_def or_null_def polls_has_def)

lemma abc_voted_eq:
  "abc_voted = \<lparr>polls = [(JStr ''p1'', \<lparr>meta = abc_meta, votes = [(''peerA'', Num 0), (''peerB'', Num 1)],
        closed_flag = False, result = None\<rparr>)],
     peer = Some full_peer, channel = ''tracpoll-votes''\<rparr>"
  by (simp add: abc_voted_def abc_open_eq abc_meta_def onVote_def Let_def vote_payload_def
      same_value_zero_def votes_has_def emit_def start_def)

lemma abc_compute:
  "compute_result \<lparr>meta = abc_meta, votes = [(''peerA'', Num 0), (''peerB'', Num 1)],
        closed_flag = False, result = None\<rparr> 9 = abc_result"
  by (simp add: compute_result_def abc_meta_def abc_result_def count_votes_def increment_def
      array_index_def math_max_def indexOf_def strict_eq_def element_at_def Let_def)

lemma abc_closed_eq:
  "abc_closed = \<lparr>polls = [(JStr ''p1'', \<lparr>meta = abc_meta, votes = [(''peerA'', Num 0), (''peerB'', Num 1)],
        closed_flag = True, result = Some abc_result\<rparr>)],
     peer = Some full_peer, channel = ''tracpoll-votes''\<rparr>"
  by (simp add: abc_closed_def abc_voted_eq state_onClose close_payload_def same_value_zero_def abc_compute)

subsection \<open>Records over a run, tallies of integer votes\<close>

lemma evolves_refl: "evolves p p"
  by (simp add: evolves_def)

lemma evolves_trans: "evolves p p' \<Longrightarrow> evolves p' p'' \<Longrightarrow> evolves p p''"
  by (auto simp: evolves_def)

lemma store_le_refl: "store_le m m"
  by (simp add: store_le_def evolves_refl)

lemma store_le_trans:
  assumes "store_le m m'" "store_le m' m''"
  shows "store_le m m''"
  unfolding store_le_def
proof (intro conjI allI impI)
  show "length m \<le> length m''" using assms by (simp add: store_le_def)
next
  fix i assume i: "i < length m"
  then have i': "i < length m'" using assms(1) by (simp add: store_le_def)
  show "fst (m'' ! i) = fst (m ! i)"
    using assms i i' by (simp add: store_le_def)
  have "evolves (snd (m ! i)) (snd (m' ! i))" using assms(1) i by (simp add: store_le_def)
  moreover have "evolves (snd (m' ! i)) (snd (m'' ! i))" using assms(2) i' by (simp add: store_le_def)
  ultimately show "evolves (snd (m ! i)) (snd (m'' ! i))" by (rule evolves_trans)
qed

lemma store_le_append: "store_le m (m @ [x])"
  by (simp add: store_le_def nth_append evolves_refl)

lemma store_le_update:
  assumes "i < length m" "m ! i = (k, p)" "evolves p p'"
  shows "store_le m (m[i := (k, p')])"
  using assms by (auto simp: store_le_def nth_list_update evolves_refl)

lemma store_le_polls_set:
  assumes "polls_get k m = Some p" "evolves p p'"
  shows "store_le m (polls_set k p' m)"
proof -
  from polls_set_found[OF assms(1), of p'] obtain i where "i < length m" "m ! i = (k, p)"
    "polls_set k p' m = m[i := (k, p')]" by blast
  then show ?thesis using assms(2) by (simp add: store_le_update)
qed

lemma on_message_le: "store_le (polls this) (polls (state (on_message this ev)))"
proof (cases rule: on_message_step[of this ev])
  case same
  then show ?thesis by (simp add: store_le_refl)
next
  case (created k p)
  then show ?thesis by (simp add: store_le_append)
next
  case (voted k p sender n)
  have "evolves p (p\<lparr>votes := votes p @ [(sender, n)]\<rparr>)"
    using voted(2) by (simp add: evolves_def)
  with voted show ?thesis by (simp add: store_le_polls_set)
next
  case (closed k p t)
  have "evolves p (p\<lparr>closed_flag := True, result := Some (compute_result p t)\<rparr>)"
    using closed(2) by (simp add: evolves_def)
  with closed show ?thesis by (simp add: store_le_polls_set)
qed

lemma deliver_le: "store_le (polls this) (polls (deliver this evs))"
proof (induction evs rule: rev_induct)
  case Nil
  then show ?case by (simp add: deliver_def store_le_refl)
next
  case (snoc ev evs)
  have "store_le (polls (deliver this evs)) (polls (deliver this (evs @ [ev])))"
    by (simp add: deliver_snoc on_message_le)
  with snoc show ?case by (rule store_le_trans)
qed

lemma reachable_inv: "polls this0 = [] \<Longrightarrow> store_inv (polls (deliver this0 evs))"
  by (rule deliver_inv) (simp add: store_inv_empty)

lemma count_votes_empty: "count_votes n [] = replicate n (Some (Num 0))"
  by (simp add: count_votes_def)

lemma replicate_nat_tally: "replicate n (Some (Num 0)) = map nat_tally (replicate n 0)"
  by (simp add: nat_tally_def)

lemma indexOf_zeros:
  assumes "0 < n"
  shows "indexOf (replicate n (Some (Num 0))) (math_max (replicate n (Some (Num 0)))) = 0"
proof -
  have ne: "replicate n (0::nat) \<noteq> []" using assms by simp
  from winner_least_max[OF ne] obtain w where w: "w < length (replicate n (0::nat))"
    "indexOf (map nat_tally (replicate n 0)) (math_max (map nat_tally (replicate n 0))) = int w"
    "\<forall>j<w. replicate n (0::nat) ! j < replicate n 0 ! w" by blast
  have "w = 0"
  proof (rule ccontr)
    assume "w \<noteq> 0"
    then have "0 < w" by simp
    with w(3) have "replicate n (0::nat) ! 0 < replicate n 0 ! w" by blast
    then show False using w(1) assms by simp
  qed
  with w(2) show ?thesis by (simp add: replicate_nat_tally)
qed

lemma compute_result_no_votes:
  assumes "votes p = []" "options (meta p) \<noteq> []"
  shows "compute_result p now =
     \<lparr>tallies = replicate (length (options (meta p))) (Some (Num 0)), total_votes = 0,
      closed_at = now, winner_index = 0, winner_option = hd (options (meta p))\<rparr>"
  using assms
  by (simp add: compute_result_def count_votes_empty indexOf_zeros element_at_def hd_conv_nth)

lemma compute_result_winner:
  assumes "options (meta p) \<noteq> []"
    and "\<forall>v \<in> set (map snd (votes p)). accepted_index (length (options (meta p))) v"
    and "r = compute_result p t"
  shows "\<exists>cs. tallies r = map nat_tally cs \<and> length cs = length (options (meta p))
     \<and> 0 \<le> winner_index r \<and> nat (winner_index r) < length cs
     \<and> (\<forall>j<length cs. cs ! j \<le> cs ! nat (winner_index r))
     \<and> (\<forall>j<nat (winner_index r). cs ! j < cs ! nat (winner_index r))
     \<and> winner_option r = options (meta p) ! nat (winner_index r)"
proof -
  let ?n = "length (options (meta p))"
  let ?cs = "map (count_for (map snd (votes p))) [0..<?n]"
  have ts: "count_votes ?n (votes p) = map nat_tally ?cs"
    using count_votes_counts[OF assms(2)] by simp
  have ne: "?cs \<noteq> []" using assms(1) by simp
  from winner_least_max[OF ne] obtain w where w: "w < length ?cs"
    "indexOf (map nat_tally ?cs) (math_max (map nat_tally ?cs)) = int w"
    "\<forall>j<length ?cs. ?cs ! j \<le> ?cs ! w" "\<forall>j<w. ?cs ! j < ?cs ! w" by blast
  have wi: "winner_index r = int w"
    using assms(3) w(2) by (simp add: compute_result_def Let_def ts)
  have wo: "winner_option r = options (meta p) ! w"
    using assms(3) w(1,2) by (simp add: compute_result_def Let_def ts element_at_def)
  have tr: "tallies r = map nat_tally ?cs"
    using assms(3) by (simp add: compute_result_def Let_def ts)
  show ?thesis
  proof (intro exI[of _ ?cs] conjI)
    show "tallies r = map nat_tally ?cs" by (rule tr)
    show "length ?cs = ?n" by simp
    show "0 \<le> winner_index r" by (simp add: wi)
    show "nat (winner_index r) < length ?cs" using w(1) by (simp add: wi)
    show "\<forall>j<length ?cs. ?cs ! j \<le> ?cs ! nat (winner_index r)" using w(3) by (simp add: wi)
    show "\<forall>j<nat (winner_index r). ?cs ! j < ?cs ! nat (winner_index r)" using w(4) by (simp add: wi)
    show "winner_option r = options (meta p) ! nat (winner_index r)" by (simp add: wi wo)
  qed
qed

lemma array_index_nat: "array_index (Num (of_nat k)) = Some k"
  by (simp add: array_index_def)

lemma accepted_index_nat: "i < n \<Longrightarrow> accepted_index n (Num (of_nat i))"
  by (simp add: accepted_index_def)

lemma count_for_nat:
  assumes "\<forall>v \<in> set vs. \<exists>k. v = Num (of_nat k)"
  shows "count_for vs i = length (filter (\<lambda>v. v = Num (of_nat i)) vs)"
proof -
  have "filter (\<lambda>v. array_index v = Some i) vs = filter (\<lambda>v. v = Num (of_nat i)) vs"
    using assms by (intro filter_cong) (auto simp: array_index_nat)
  then show ?thesis by (simp add: count_for_def)
qed

lemma sum_indicator: "k < n \<Longrightarrow> sum_list (map (\<lambda>i. if k = i then 1 else (0::nat)) [0..<n]) = 1"
  by (simp add: interv_sum_list_conv_sum_set_nat)

lemma sum_counts:
  assumes "\<forall>v \<in> set vs. \<exists>k<n. v = Num (of_nat k)"
  shows "sum_list (map (\<lambda>i. length (filter (\<lambda>v. v = Num (of_nat i)) vs)) [0..<n]) = length vs"
  using assms
proof (induction vs)
  case Nil
  then show ?case by simp
next
  case (Cons v vs)
  then obtain k where k: "k < n" "v = Num (of_nat k)" by auto
  have "sum_list (map (\<lambda>i. length (filter (\<lambda>x. x = Num (of_nat i)) (v # vs))) [0..<n])
      = sum_list (map (\<lambda>i. (if k = i then 1 else 0) + length (filter (\<lambda>x. x = Num (of_nat i)) vs)) [0..<n])"
    by (rule arg_cong[where f = sum_list], rule map_cong) (auto simp: k(2))
  also have "\<dots> = sum_list (map (\<lambda>i. if k = i then 1 else 0) [0..<n])
      + sum_list (map (\<lambda>i. length (filter (\<lambda>x. x = Num (of_nat i)) vs)) [0..<n])"
    by (simp add: sum_list_addf)
  also have "\<dots> = 1 + length vs"
    using Cons k(1) by (simp add: sum_indicator)
  finally show ?case by simp
qed

lemma votes_fold:
  assumes "polls_get pid (polls this) = Some p" "\<not> closed_flag p"
    and "distinct (map fst (votes p) @ map fst vs)"
    and "\<forall>i \<in> set (map snd vs). i < length (options (meta p))"
  shows "polls_get pid
      (polls (foldl (\<lambda>s (sender, i). state (onVote s (vote_payload pid (JNum (Num (of_nat i)))) sender))
         this vs))
    = Some (p\<lparr>votes := votes p @ map (\<lambda>(s, i). (s, Num (of_nat i))) vs\<rparr>)"
  using assms
proof (induction vs arbitrary: this p)
  case Nil
  then show ?case by simp
next
  case (Cons a vs)
  obtain sender i where a: "a = (sender, i)" by (cases a)
  let ?p1 = "p\<lparr>votes := votes p @ [(sender, Num (of_nat i))]\<rparr>"
  let ?this1 = "state (onVote this (vote_payload pid (JNum (Num (of_nat i)))) sender)"
  have prim: "is_primitive pid" using Cons.prems(1) by (rule polls_get_key)
  have i: "i < length (options (meta p))" using Cons.prems(4) a by simp
  have nv: "\<not> votes_has sender (votes p)" using Cons.prems(3) a by (simp add: votes_has_keys)
  have this1: "?this1 = this\<lparr>polls := polls_set pid ?p1 (polls this)\<rparr>"
    using Cons.prems(1,2) i nv
    by (simp add: state_onVote vote_payload_def accepted_index_nat)
  have get1: "polls_get pid (polls ?this1) = Some ?p1"
    using prim by (simp add: this1 polls_get_set)
  have "polls_get pid
      (polls (foldl (\<lambda>s (sender, i). state (onVote s (vote_payload pid (JNum (Num (of_nat i)))) sender))
         ?this1 vs))
    = Some (?p1\<lparr>votes := votes ?p1 @ map (\<lambda>(s, i). (s, Num (of_nat i))) vs\<rparr>)"
    using get1 Cons.prems(2,3,4) a by (intro Cons.IH) auto
  then show ?case by (simp add: a)
qed

subsection \<open>The example run as delivered events\<close>

lemma state_on_message_create:
  "channel this = ''tracpoll-votes'' \<Longrightarrow>
   state (on_message this (mk_event (create_payload i q os) s t)) = state (onCreate this (create_payload i q os) s t)"
  by (simp add: on_message_def mk_event_def handleMessage_def create_payload_def Let_def)

lemma state_on_message_vote:
  "channel this = ''tracpoll-votes'' \<Longrightarrow>
   state (on_message this (mk_event (vote_payload i n) s t)) = state (onVote this (vote_payload i n) s)"
  by (simp add: on_message_def mk_event_def handleMessage_def vote_payload_def Let_def)

lemma state_on_message_close:
  "channel this = ''tracpoll-votes'' \<Longrightarrow>
   state (on_message this (mk_event (close_payload i) s t)) = state (onClose this (close_payload i) s t io_ok)"
  by (simp add: on_message_def mk_event_def handleMessage_def close_payload_def Let_def)

lemma attached_eq: "attached = \<lparr>polls = [], peer = Some full_peer, channel = ''tracpoll-votes''\<rparr>"
  by (simp add: attached_def attach_def constructor_def)

lemma deliver_create: "deliver attached [hd abc_events] = abc_open"
  by (simp add: deliver_def abc_events_def state_on_message_create attached_eq abc_open_def)

lemma deliver_abc_events: "deliver attached abc_events = abc_closed"
proof -
  have c: "channel attached = ''tracpoll-votes''" by (simp add: attached_eq)
  have 1: "state (on_message attached (abc_events ! 0)) = abc_open"
    by (simp add: abc_events_def state_on_message_create[OF c] abc_open_def)
  have co: "channel abc_open = ''tracpoll-votes''" by (simp add: abc_open_eq)
  let ?v1 = "state (onVote abc_open (vote_payload (JStr ''p1'') (JNum (Num 0))) ''peerA'')"
  have 2: "state (on_message abc_open (abc_events ! 1)) = ?v1"
    by (simp add: abc_events_def state_on_message_vote[OF co])
  have cv1: "channel ?v1 = ''tracpoll-votes''"
    by (simp add: state_onVote abc_open_eq split: option.splits jsval.splits)
  have 3: "state (on_message ?v1 (abc_events ! 2)) = abc_voted"
    by (simp add: abc_events_def state_on_message_vote[OF cv1] abc_voted_def)
  have cv: "channel abc_voted = ''tracpoll-votes''" by (simp add: abc_voted_eq)
  have 4: "state (on_message abc_voted (abc_events ! 3)) = abc_closed"
    by (simp add: abc_events_def state_on_message_close[OF cv] abc_closed_def)
  have "abc_events = [abc_events ! 0, abc_events ! 1, abc_events ! 2, abc_events ! 3]"
    by (simp add: abc_events_def)
  then have "deliver attached abc_events =
      state (on_message (state (on_message (state (on_message (state (on_message attached
        (abc_events ! 0))) (abc_events ! 1))) (abc_events ! 2))) (abc_events ! 3))"
    by (metis deliver_def foldl_Cons foldl_Nil)
  then show ?thesis by (simp only: 1 2 3 4)
qed

lemma deliver_late_vote: "deliver abc_closed [late_vote] = abc_closed"
proof -
  have c: "channel abc_closed = ''tracpoll-votes''" by (simp add: abc_closed_eq)
  show ?thesis
    by (simp add: deliver_def late_vote_def state_on_message_vote[OF c])
      (simp add: state_onVote abc_closed_eq vote_payload_def same_value_zero_def)
qed

subsection \<open>The trace of \<open>_onClose\<close>, further evaluations\<close>

lemma bare_voted_eq:
  "bare_voted = \<lparr>polls = [(JStr ''p1'', abc_votes_poll)],
     peer = Some bare_peer, channel = ''tracpoll-votes''\<rparr>"
  by (simp add: bare_voted_def abc_votes_poll_def abc_meta_def attach_def constructor_def state_onCreate state_onVote
      create_payload_def vote_payload_def is_array_def elements_def or_null_def polls_has_def
      same_value_zero_def votes_has_def accepted_index_def)

lemma threw_emit: "threw (emit e ss r) = (threw r \<or> list_ex throws_to_string ss)"
  by (simp add: emit_def)

lemma threw_await_call: "threw (await_call e ok r) = (threw r \<or> \<not> ok)"
  by (simp add: await_call_def)

lemma threw_foldl_emit:
  "threw (foldl (\<lambda>r' x. emit (f x) (g x) r') r xs)
     = (threw r \<or> (\<exists>x \<in> set xs. list_ex throws_to_string (g x)))"
  by (induction xs arbitrary: r) (auto simp: threw_emit)

lemma threw_log_result:
  "threw (log_result pid p res r)
     = (threw r \<or> throws_to_string pid \<or> (\<exists>opt \<in> set (options (meta p)). throws_to_string opt)
        \<or> throws_to_string (winner_option res))"
proof -
  let ?opts = "options (meta p)"
  have "snd ` set (zip [0..<length ?opts] ?opts) = set ?opts"
    by (metis diff_zero length_upt list.set_map map_snd_zip)
  then have "(\<exists>x \<in> set (zip [0..<length ?opts] ?opts). throws_to_string (snd x))
      = (\<exists>opt \<in> set ?opts. throws_to_string opt)"
    by (metis (no_types, lifting) image_iff)
  then show ?thesis
    by (simp add: log_result_def case_prod_unfold threw_emit threw_foldl_emit disj_ac)
qed

text \<open>Console calls add no external call to the trace.\<close>

lemma external_emit:
  "\<not> external e \<Longrightarrow>
   filter external (map fst (trace (emit e ss r))) = filter external (map fst (trace r))"
  by (simp add: emit_def)

lemma external_foldl_emit:
  "filter external (map fst (trace (foldl (\<lambda>r' x. emit (ConsoleLog (f x)) (g x) r') r xs)))
     = filter external (map fst (trace r))"
  by (induction xs arbitrary: r) (simp_all add: external_emit)

lemma external_log_result:
  "filter external (map fst (trace (log_result pid p res r))) = filter external (map fst (trace r))"
  by (simp add: log_result_def case_prod_unfold external_emit external_foldl_emit)

lemma external_await_call:
  "filter external (map fst (trace (await_call e ok r)))
     = filter external (map fst (trace r)) @ (if threw r \<or> \<not> external e then [] else [e])"
  by (simp add: await_call_def)

text \<open>Every effect is recorded with the store the outcome holds.\<close>

lemma snapshots_emit:
  "snd ` set (trace r) \<subseteq> {polls (state r)} \<Longrightarrow>
   snd ` set (trace (emit e ss r)) \<subseteq> {polls (state (emit e ss r))}"
  by (auto simp: emit_def)

lemma snapshots_await_call:
  "snd ` set (trace r) \<subseteq> {polls (state r)} \<Longrightarrow>
   snd ` set (trace (await_call e ok r)) \<subseteq> {polls (state (await_call e ok r))}"
  by (auto simp: await_call_def)

lemma snapshots_foldl_emit:
  "snd ` set (trace r) \<subseteq> {polls (state r)} \<Longrightarrow>
   snd ` set (trace (foldl (\<lambda>r' x. emit (f x) (g x) r') r xs))
     \<subseteq> {polls (state (foldl (\<lambda>r' x. emit (f x) (g x) r') r xs))}"
proof (induction xs arbitrary: r)
  case Nil
  then show ?case by simp
next
  case (Cons x xs)
  from Cons.prems have "snd ` set (trace (emit (f x) (g x) r)) \<subseteq> {polls (state (emit (f x) (g x) r))}"
    by (rule snapshots_emit)
  from Cons.IH[OF this] show ?case by simp
qed

lemma snapshots_log_result:
  assumes "snd ` set (trace r) \<subseteq> {polls (state r)}"
  shows "snd ` set (trace (log_result pid p res r)) \<subseteq> {polls (state (log_result pid p res r))}"
  unfolding log_result_def case_prod_unfold
  by (intro snapshots_emit snapshots_foldl_emit assms)

lemma snapshots_start: "snd ` set (trace (start this)) \<subseteq> {polls (state (start this))}"
  by (simp add: start_def)

lemma trace_start: "trace (start this) = []"
  by (simp add: start_def)

lemma threw_start: "\<not> threw (start this)"
  by (simp add: start_def)

text \<open>What converts to a string without a throw.\<close>

lemma primitive_to_string: "is_primitive v \<Longrightarrow> \<not> throws_to_string v"
  by (cases v) simp_all

lemma element_at_to_string:
  assumes "\<forall>opt \<in> set opts. \<not> throws_to_string opt"
  shows "\<not> throws_to_string (element_at opts i)"
proof (cases "0 \<le> i \<and> i < int (length opts)")
  case True
  then have "nat i < length opts" by linarith
  then have "opts ! nat i \<in> set opts" by simp
  with assms have "\<not> throws_to_string (opts ! nat i)" by blast
  with True show ?thesis by (simp add: element_at_def)
next
  case False
  then have "element_at opts i = JUndefined" by (auto simp: element_at_def)
  then show ?thesis by simp
qed

text \<open>The handler after its two guards: the mutation, the console lines, the commit.\<close>

lemma onClose_open:
  assumes "polls_get (get_prop payload ''poll_id'') (polls this) = Some p" "\<not> closed_flag p"
  shows "onClose this payload senderHex now io =
    (let pid = get_prop payload ''poll_id'';
         res = compute_result p now;
         this' = this\<lparr>polls := polls_set pid (p\<lparr>closed_flag := True, result := Some res\<rparr>) (polls this)\<rparr>;
         r1 = log_result pid p res (start this');
         r2 = (if can_contractPut this
               then emit (ConsoleLog TallyCommitted) [pid]
                      (await_call (put_result pid res) (io (put_result pid res))
                        (await_call (put_meta pid p) (io (put_meta pid p)) r1))
               else emit (ConsoleWarn NoContractPut) [] r1)
     in if can_sendSidechannel this
        then await_call (broadcast (channel this) pid p res) (io (broadcast (channel this) pid p res)) r2
        else r2)"
  using assms by (simp add: onClose_def Let_def can_contractPut_def can_sendSidechannel_def)

lemma onClose_snapshots:
  assumes "polls_get (get_prop payload ''poll_id'') (polls this) = Some p" "\<not> closed_flag p"
  shows "snd ` set (trace (onClose this payload senderHex now io))
    \<subseteq> {polls (state (onClose this payload senderHex now io))}"
  unfolding onClose_open[OF assms] Let_def
  by (auto intro!: snapshots_emit snapshots_await_call snapshots_log_result snapshots_start)

text \<open>The console lines of a close that passed validation throw only on an option.\<close>

lemma threw_log_result_open:
  assumes "polls_get pid (polls this) = Some p"
  shows "threw (log_result pid p (compute_result p now) (start this'))
     = (\<exists>opt \<in> set (options (meta p)). throws_to_string opt)"
proof -
  have "\<not> throws_to_string pid"
    using assms polls_get_key primitive_to_string by blast
  moreover have "(\<forall>opt \<in> set (options (meta p)). \<not> throws_to_string opt) \<longrightarrow>
      \<not> throws_to_string (winner_option (compute_result p now))"
    by (simp add: compute_result_def Let_def element_at_to_string)
  ultimately show ?thesis
    by (auto simp: threw_log_result threw_start)
qed

lemma onClose_external:
  assumes "polls_get (get_prop payload ''poll_id'') (polls this) = Some p" "\<not> closed_flag p"
    and "\<forall>opt \<in> set (options (meta p)). \<not> throws_to_string opt"
  shows "filter external (map fst (trace (onClose this payload senderHex now io))) =
    (let pid = get_prop payload ''poll_id''; res = compute_result p now
     in (if can_contractPut this
         then put_meta pid p # (if io (put_meta pid p) then [put_result pid res] else [])
         else [])
        @ (if can_sendSidechannel this
              \<and> (can_contractPut this \<longrightarrow> io (put_meta pid p) \<and> io (put_result pid res))
           then [broadcast (channel this) pid p res] else []))"
proof -
  have prim: "\<not> throws_to_string (get_prop payload ''poll_id'')"
    using assms(1) polls_get_key primitive_to_string by blast
  show ?thesis
    using assms(3) prim
    by (simp add: onClose_open[OF assms(1,2)] Let_def threw_log_result_open[OF assms(1)]
        external_await_call external_emit external_log_result trace_start
        threw_emit threw_await_call put_meta_def put_result_def broadcast_def)
qed

text \<open>An option that does not convert: the handler throws in \<open>forEach\<close>, before any external call.\<close>

lemma onClose_option_throws:
  assumes "polls_get (get_prop payload ''poll_id'') (polls this) = Some p" "\<not> closed_flag p"
    and "\<exists>opt \<in> set (options (meta p)). throws_to_string opt"
  shows "threw (onClose this payload senderHex now io)
    \<and> filter external (map fst (trace (onClose this payload senderHex now io))) = []"
  using assms(3)
  by (simp add: onClose_open[OF assms(1,2)] Let_def threw_log_result_open[OF assms(1)]
      external_await_call external_emit external_log_result trace_start
      threw_emit threw_await_call)

lemma abc_votes_poll_fields:
  "question (meta abc_votes_poll) = JStr ''Q''"
  "options (meta abc_votes_poll) = [JStr ''A'', JStr ''B'', JStr ''C'']"
  "created_at (meta abc_votes_poll) = 1"
  "\<not> closed_flag abc_votes_poll"
  by (simp_all add: abc_votes_poll_def abc_meta_def)

lemma abc_votes_poll_options: "\<forall>opt \<in> set (options (meta abc_votes_poll)). \<not> throws_to_string opt"
  by (simp add: abc_votes_poll_def abc_meta_def)

lemma abc_votes_poll_result: "compute_result abc_votes_poll 9 = abc_result"
  by (simp add: abc_votes_poll_def abc_compute)

lemma array_index_half: "array_index (Num (1 / 2)) = None"
  by code_simp

section \<open>The claims\<close>

text \<open>
  Claim C1, evaluated at a \<open>poll:create\<close> with nine options on an attached instance
  with an empty store: \<open>_onCreate\<close> checks only \<open>options.length < 2\<close>, so the poll is
  inserted with all nine options.
\<close>

theorem create_nine_options_accepted:
  "length nine_options = 9
   \<and> polls attached = []
   \<and> polls (state (onCreate attached (create_payload (JStr ''p9'') (JStr ''Q'') nine_options) ''peer0'' 1))
       = [(JStr ''p9'',
           \<lparr>meta = \<lparr>question = JStr ''Q'', options = nine_options, closes_at = JNull,
                    creator = ''peer0'', created_at = 1\<rparr>,
            votes = [], closed_flag = False, result = None\<rparr>)]"
  by (simp add: attached_eq state_onCreate create_payload_def is_array_def elements_def
      or_null_def polls_has_def nine_options_def)

theorem create_nine_options_accepted_witness:
  "truthy (get_prop (create_payload (JStr ''p9'') (JStr ''Q'') nine_options) ''id'')
   \<and> truthy (get_prop (create_payload (JStr ''p9'') (JStr ''Q'') nine_options) ''question'')
   \<and> is_array (get_prop (create_payload (JStr ''p9'') (JStr ''Q'') nine_options) ''options'')
   \<and> 8 < length (elements (get_prop (create_payload (JStr ''p9'') (JStr ''Q'') nine_options) ''options''))
   \<and> polls_has (JStr ''p9'')
        (polls (state (onCreate attached (create_payload (JStr ''p9'') (JStr ''Q'') nine_options) ''peer0'' 1)))
   \<and> \<not> polls_has (JStr ''p9'') (polls attached)"
  using create_nine_options_accepted
  by (simp add: create_payload_def is_array_def elements_def polls_has_def same_value_zero_def)

text \<open>
  Claim C2, evaluated at a \<open>poll:vote\<close> with \<open>option_index = 0.5\<close> on the open poll
  \<open>p1\<close> (options A, B, C, no votes): \<open>0.5\<close> is a number, not below 0 and not at or
  above 3, so \<open>_onVote\<close> records it. The \<open>poll:close\<close> that follows counts the vote
  in \<open>total_votes\<close> but in no element of \<open>tallies\<close>.
\<close>

theorem vote_fraction_accepted:
  "polls abc_open
     = [(JStr ''p1'', \<lparr>meta = abc_meta, votes = [], closed_flag = False, result = None\<rparr>)]
   \<and> polls abc_half_voted
     = [(JStr ''p1'', \<lparr>meta = abc_meta, votes = [(''peerA'', Num (1 / 2))],
                       closed_flag = False, result = None\<rparr>)]
   \<and> polls (state (onClose abc_half_voted (close_payload (JStr ''p1'')) ''peer0'' 9 io_ok))
     = [(JStr ''p1'',
         \<lparr>meta = abc_meta, votes = [(''peerA'', Num (1 / 2))], closed_flag = True,
          result = Some \<lparr>tallies = [Some (Num 0), Some (Num 0), Some (Num 0)], total_votes = 1,
                          closed_at = 9, winner_index = 0, winner_option = JStr ''A''\<rparr>\<rparr>)]"
proof (intro conjI)
  show "polls abc_open
     = [(JStr ''p1'', \<lparr>meta = abc_meta, votes = [], closed_flag = False, result = None\<rparr>)]"
    by (simp add: abc_open_eq)
  show v: "polls abc_half_voted
     = [(JStr ''p1'', \<lparr>meta = abc_meta, votes = [(''peerA'', Num (1 / 2))],
                       closed_flag = False, result = None\<rparr>)]"
    by (simp add: abc_half_voted_def abc_open_eq onVote_def Let_def vote_payload_def
        same_value_zero_def votes_has_def emit_def start_def abc_meta_def)
  have r: "compute_result \<lparr>meta = abc_meta, votes = [(''peerA'', Num (1 / 2))],
                       closed_flag = False, result = None\<rparr> 9
     = \<lparr>tallies = [Some (Num 0), Some (Num 0), Some (Num 0)], total_votes = 1, closed_at = 9,
        winner_index = 0, winner_option = JStr ''A''\<rparr>"
    by (simp add: compute_result_def abc_meta_def count_votes_def increment_def array_index_half
        math_max_def indexOf_def strict_eq_def element_at_def Let_def)
  show "polls (state (onClose abc_half_voted (close_payload (JStr ''p1'')) ''peer0'' 9 io_ok))
     = [(JStr ''p1'',
         \<lparr>meta = abc_meta, votes = [(''peerA'', Num (1 / 2))], closed_flag = True,
          result = Some \<lparr>tallies = [Some (Num 0), Some (Num 0), Some (Num 0)], total_votes = 1,
                          closed_at = 9, winner_index = 0, winner_option = JStr ''A''\<rparr>\<rparr>)]"
    by (simp add: state_onClose v close_payload_def same_value_zero_def r)
qed

theorem vote_fraction_accepted_witness:
  "\<not> js_lt (Num (1 / 2)) (Num 0)
   \<and> \<not> js_ge (Num (1 / 2)) (Num (of_nat (length (options abc_meta))))
   \<and> array_index (Num (1 / 2)) = None
   \<and> map (\<lambda>kp. votes (snd kp)) (polls abc_half_voted) = [[(''peerA'', Num (1 / 2))]]
   \<and> map (\<lambda>kp. votes (snd kp)) (polls abc_open) = [[]]"
  using vote_fraction_accepted
  by (simp add: abc_meta_def array_index_half)

text \<open>
  Claim C3. Take an open poll whose recorded votes (if any) are integer indices below
  the number of options, and deliver \<open>poll:vote\<close> events from senders that are
  distinct and have not voted, each with an integer index below the number of options.
  After \<open>_onClose\<close> the poll is closed with a result in which \<open>tallies[i]\<close> is the
  number of voters whose recorded option index is \<open>i\<close>, for every \<open>i\<close>, and the sum of
  the tallies is \<open>total_votes\<close>, which is the number of recorded votes and the number
  of distinct voters.
\<close>

theorem tally_counts_votes:
  assumes "polls_get pid (polls this) = Some p" and "\<not> closed_flag p"
    and "\<forall>v \<in> set (map snd (votes p)). \<exists>k<length (options (meta p)). v = Num (of_nat k)"
    and "distinct (map fst (votes p) @ map fst vs)"
    and "\<forall>i \<in> set (map snd vs). i < length (options (meta p))"
    and "this' = foldl (\<lambda>s (sender, i). state (onVote s (vote_payload pid (JNum (Num (of_nat i)))) sender))
           this vs"
    and "get_prop payload ''poll_id'' = pid"
  shows "\<exists>p' r cs.
      polls_get pid (polls (state (onClose this' payload senderHex now io))) = Some p'
      \<and> closed_flag p' \<and> result p' = Some r
      \<and> votes p' = votes p @ map (\<lambda>(s, i). (s, Num (of_nat i))) vs
      \<and> distinct (map fst (votes p'))
      \<and> tallies r = map nat_tally cs \<and> length cs = length (options (meta p))
      \<and> (\<forall>i<length cs. cs ! i = length (filter (\<lambda>(s, v). v = Num (of_nat i)) (votes p')))
      \<and> sum_list cs = total_votes r
      \<and> total_votes r = length (votes p')
      \<and> total_votes r = card (set (map fst (votes p')))"
proof -
  let ?n = "length (options (meta p))"
  let ?vs' = "votes p @ map (\<lambda>(s, i). (s, Num (of_nat i))) vs"
  let ?p1 = "p\<lparr>votes := ?vs'\<rparr>"
  let ?r = "compute_result ?p1 now"
  let ?p' = "?p1\<lparr>closed_flag := True, result := Some ?r\<rparr>"
  let ?cs = "map (\<lambda>i. length (filter (\<lambda>v. v = Num (of_nat i)) (map snd ?vs'))) [0..<?n]"
  have prim: "is_primitive pid" using assms(1) by (rule polls_get_key)
  have get1: "polls_get pid (polls this') = Some ?p1"
    unfolding assms(6) using assms(1,2,4,5) by (rule votes_fold)
  have get': "polls_get pid (polls (state (onClose this' payload senderHex now io))) = Some ?p'"
    using get1 assms(2,7) prim by (simp add: state_onClose polls_get_set)
  have all_nat: "\<forall>v \<in> set (map snd ?vs'). \<exists>k<?n. v = Num (of_nat k)"
    using assms(3,5) by (auto simp: image_iff) 
  have acc: "\<forall>v \<in> set (map snd ?vs'). accepted_index ?n v"
  proof
    fix v assume "v \<in> set (map snd ?vs')"
    with all_nat obtain k where "k < ?n" "v = Num (of_nat k)" by blast
    then show "accepted_index ?n v" by (simp add: accepted_index_nat)
  qed
  have nat': "\<forall>v \<in> set (map snd ?vs'). \<exists>k. v = Num (of_nat k)"
    using all_nat by blast
  have "count_votes ?n ?vs' = map (\<lambda>i. nat_tally (count_for (map snd ?vs') i)) [0..<?n]"
    using acc by (rule count_votes_counts)
  also have "\<dots> = map nat_tally ?cs"
    by (simp only: count_for_nat[OF nat'] map_map comp_def)
  finally have ts: "tallies ?r = map nat_tally ?cs"
    by (simp add: compute_result_def Let_def)
  have fst_eq: "map fst ?vs' = map fst (votes p) @ map fst vs"
    by (simp add: case_prod_beta comp_def)
  have dist: "distinct (map fst ?vs')" using assms(4) by (simp only: fst_eq)
  have cnt: "\<forall>i<length ?cs. ?cs ! i = length (filter (\<lambda>(s, v). v = Num (of_nat i)) ?vs')"
    by (simp add: filter_map comp_def case_prod_unfold)
  have total: "total_votes ?r = length ?vs'"
    by (simp add: compute_result_def Let_def)
  have sum: "sum_list ?cs = length (map snd ?vs')"
    by (rule sum_counts[OF all_nat])
  have card: "card (set (map fst ?vs')) = length (map fst ?vs')"
    by (rule distinct_card[OF dist])
  have vp: "votes ?p' = ?vs'" by simp
  have sum_total: "sum_list ?cs = total_votes ?r"
    using sum total by (simp only: length_map)
  have total_card: "total_votes ?r = card (set (map fst ?vs'))"
    using card total by (simp only: length_map)
  show ?thesis
  proof (intro exI[of _ ?p'] exI[of _ ?r] exI[of _ ?cs] conjI)
    show "polls_get pid (polls (state (onClose this' payload senderHex now io))) = Some ?p'"
      by (rule get')
    show "closed_flag ?p'" by simp
    show "result ?p' = Some ?r" by simp
    show "votes ?p' = ?vs'" by (rule vp)
    show "distinct (map fst (votes ?p'))" unfolding vp by (rule dist)
    show "tallies ?r = map nat_tally ?cs" by (rule ts)
    show "length ?cs = ?n" by simp
    show "\<forall>i<length ?cs. ?cs ! i = length (filter (\<lambda>(s, v). v = Num (of_nat i)) (votes ?p'))"
      unfolding vp by (rule cnt)
    show "sum_list ?cs = total_votes ?r" by (rule sum_total)
    show "total_votes ?r = length (votes ?p')" unfolding vp by (rule total)
    show "total_votes ?r = card (set (map fst (votes ?p')))" unfolding vp by (rule total_card)
  qed
qed

theorem tally_counts_votes_witness:
  "polls_get (JStr ''p1'') (polls abc_open) = Some abc_empty_poll
   \<and> \<not> closed_flag abc_empty_poll
   \<and> distinct (map fst (votes abc_empty_poll) @ map fst three_votes)
   \<and> polls_get (JStr ''p1'')
        (polls (state (onClose
           (foldl (\<lambda>s (sender, i). state (onVote s (vote_payload (JStr ''p1'') (JNum (Num (of_nat i)))) sender))
              abc_open three_votes)
           (close_payload (JStr ''p1'')) ''peer0'' 9 io_ok)))
      = Some \<lparr>meta = abc_meta, votes = [(''peerA'', Num 1), (''peerB'', Num 0), (''peerC'', Num 1)],
              closed_flag = True,
              result = Some \<lparr>tallies = [Some (Num 1), Some (Num 2), Some (Num 0)], total_votes = 3,
                              closed_at = 9, winner_index = 1, winner_option = JStr ''B''\<rparr>\<rparr>"
proof -
  let ?this' = "foldl (\<lambda>s (sender, i). state (onVote s (vote_payload (JStr ''p1'') (JNum (Num (of_nat i)))) sender))
              abc_open three_votes"
  have h1: "polls_get (JStr ''p1'') (polls abc_open) = Some abc_empty_poll"
    by (simp add: abc_open_eq abc_empty_poll_def same_value_zero_def)
  have h2: "\<not> closed_flag abc_empty_poll" by (simp add: abc_empty_poll_def)
  have h3: "\<forall>v \<in> set (map snd (votes abc_empty_poll)).
      \<exists>k<length (options (meta abc_empty_poll)). v = Num (of_nat k)"
    by (simp add: abc_empty_poll_def)
  have h4: "distinct (map fst (votes abc_empty_poll) @ map fst three_votes)"
    by (simp add: abc_empty_poll_def three_votes_def)
  have h5: "\<forall>i \<in> set (map snd three_votes). i < length (options (meta abc_empty_poll))"
    by (simp add: abc_empty_poll_def three_votes_def abc_meta_def)
  have h7: "get_prop (close_payload (JStr ''p1'')) ''poll_id'' = JStr ''p1''"
    by (simp add: close_payload_def)
  from tally_counts_votes[OF h1 h2 h3 h4 h5 refl h7, of "''peer0''" 9 io_ok]
  obtain p' r cs where w:
    "polls_get (JStr ''p1'') (polls (state (onClose ?this' (close_payload (JStr ''p1'')) ''peer0'' 9 io_ok))) = Some p'"
    "closed_flag p'" "result p' = Some r" by blast
  have this': "?this' = \<lparr>polls = [(JStr ''p1'',
        \<lparr>meta = abc_meta, votes = [(''peerA'', Num 1), (''peerB'', Num 0), (''peerC'', Num 1)],
         closed_flag = False, result = None\<rparr>)],
      peer = Some full_peer, channel = ''tracpoll-votes''\<rparr>"
    by (simp add: three_votes_def abc_open_eq state_onVote vote_payload_def same_value_zero_def
        votes_has_def accepted_index_def abc_meta_def)
  have res: "compute_result \<lparr>meta = abc_meta, votes = [(''peerA'', Num 1), (''peerB'', Num 0), (''peerC'', Num 1)],
         closed_flag = False, result = None\<rparr> 9
      = \<lparr>tallies = [Some (Num 1), Some (Num 2), Some (Num 0)], total_votes = 3,
                              closed_at = 9, winner_index = 1, winner_option = JStr ''B''\<rparr>"
    by (simp add: compute_result_def abc_meta_def count_votes_def increment_def
      array_index_def math_max_def indexOf_def strict_eq_def element_at_def Let_def)
  have "polls_get (JStr ''p1'') (polls (state (onClose ?this' (close_payload (JStr ''p1'')) ''peer0'' 9 io_ok)))
      = Some \<lparr>meta = abc_meta, votes = [(''peerA'', Num 1), (''peerB'', Num 0), (''peerC'', Num 1)],
              closed_flag = True,
              result = Some \<lparr>tallies = [Some (Num 1), Some (Num 2), Some (Num 0)], total_votes = 3,
                              closed_at = 9, winner_index = 1, winner_option = JStr ''B''\<rparr>\<rparr>"
    unfolding this' by (simp add: state_onClose close_payload_def same_value_zero_def res)
  with h1 h2 h4 show ?thesis by blast
qed

text \<open>
  Claim C4. In every store that started empty, whatever events were delivered, each
  stored result has natural-number tallies, one per option; \<open>winner_index\<close> is an
  index whose tally is maximal, every earlier tally is strictly smaller, and
  \<open>winner_option\<close> is the option at \<open>winner_index\<close>. In particular, with options
  A, B, C and two voters choosing 0 and 1, the close gives tallies \<open>[1, 1, 0]\<close>,
  \<open>winner_index = 0\<close> and \<open>winner_option = "A"\<close>.
\<close>

theorem winner_is_first_maximum:
  "(\<forall>this0 evs k p r.
      polls this0 = [] \<and> (k, p) \<in> set (polls (deliver this0 evs)) \<and> result p = Some r \<longrightarrow>
      (\<exists>cs. tallies r = map nat_tally cs \<and> length cs = length (options (meta p))
         \<and> 0 \<le> winner_index r \<and> nat (winner_index r) < length cs
         \<and> (\<forall>j<length cs. cs ! j \<le> cs ! nat (winner_index r))
         \<and> (\<forall>j<nat (winner_index r). cs ! j < cs ! nat (winner_index r))
         \<and> winner_option r = options (meta p) ! nat (winner_index r)))
   \<and> polls abc_closed =
       [(JStr ''p1'',
         \<lparr>meta = abc_meta, votes = [(''peerA'', Num 0), (''peerB'', Num 1)], closed_flag = True,
          result = Some \<lparr>tallies = [Some (Num 1), Some (Num 1), Some (Num 0)], total_votes = 2,
                          closed_at = 9, winner_index = 0, winner_option = JStr ''A''\<rparr>\<rparr>)]"
proof (intro conjI allI impI)
  fix this0 evs k p r
  assume a: "polls this0 = [] \<and> (k, p) \<in> set (polls (deliver this0 evs)) \<and> result p = Some r"
  then have "store_inv (polls (deliver this0 evs))" by (simp add: reachable_inv)
  with a have inv: "poll_inv p" by (force simp: store_inv_def)
  then obtain t where t: "r = compute_result p t" using a by (auto simp: poll_inv_def)
  have "options (meta p) \<noteq> []" using inv by (auto simp: poll_inv_def)
  moreover have "\<forall>v \<in> set (map snd (votes p)). accepted_index (length (options (meta p))) v"
    using inv by (simp add: poll_inv_def)
  ultimately show "\<exists>cs. tallies r = map nat_tally cs \<and> length cs = length (options (meta p))
         \<and> 0 \<le> winner_index r \<and> nat (winner_index r) < length cs
         \<and> (\<forall>j<length cs. cs ! j \<le> cs ! nat (winner_index r))
         \<and> (\<forall>j<nat (winner_index r). cs ! j < cs ! nat (winner_index r))
         \<and> winner_option r = options (meta p) ! nat (winner_index r)"
    using t by (rule compute_result_winner)
next
  show "polls abc_closed =
       [(JStr ''p1'',
         \<lparr>meta = abc_meta, votes = [(''peerA'', Num 0), (''peerB'', Num 1)], closed_flag = True,
          result = Some \<lparr>tallies = [Some (Num 1), Some (Num 1), Some (Num 0)], total_votes = 2,
                          closed_at = 9, winner_index = 0, winner_option = JStr ''A''\<rparr>\<rparr>)]"
    by (simp add: abc_closed_eq abc_result_def)
qed

theorem winner_is_first_maximum_witness:
  "polls attached = []
   \<and> (JStr ''p1'', \<lparr>meta = abc_meta, votes = [(''peerA'', Num 0), (''peerB'', Num 1)],
          closed_flag = True, result = Some abc_result\<rparr>) \<in> set (polls (deliver attached abc_events))
   \<and> tallies abc_result = map nat_tally [1, 1, 0]
   \<and> winner_index abc_result = 0
   \<and> winner_option abc_result = options abc_meta ! 0
   \<and> winner_option abc_result = JStr ''A''"
  using winner_is_first_maximum[THEN conjunct1, rule_format, of attached "JStr ''p1''"
      "\<lparr>meta = abc_meta, votes = [(''peerA'', Num 0), (''peerB'', Num 1)],
          closed_flag = True, result = Some abc_result\<rparr>" abc_events abc_result]
  by (simp add: attached_eq[symmetric] deliver_abc_events abc_closed_eq abc_result_def abc_meta_def nat_tally_def)
    (simp add: attached_eq)

text \<open>
  Claim C5. Start from an empty store and deliver any events \<open>evs1\<close>, then any events
  \<open>evs2\<close>. Every record present after \<open>evs1\<close> is still in its place after \<open>evs2\<close>
  and has evolved: a closed record is the same record (so \<open>closed\<close> never reverts, its
  \<open>result\<close> is never replaced and its \<open>votes\<close> no longer change), and the votes of an
  open record have only been appended to. At every moment the voters of a record are
  distinct, and a record is closed exactly when it has a result.
\<close>

theorem poll_records_evolve:
  assumes "polls this0 = []"
  shows "store_le (polls (deliver this0 evs1)) (polls (deliver (deliver this0 evs1) evs2))
    \<and> (\<forall>p \<in> set (map snd (polls (deliver this0 evs1))).
          distinct (map fst (votes p)) \<and> (closed_flag p \<longleftrightarrow> result p \<noteq> None))"
proof
  show "store_le (polls (deliver this0 evs1)) (polls (deliver (deliver this0 evs1) evs2))"
    by (rule deliver_le)
  have "store_inv (polls (deliver this0 evs1))"
    using assms by (rule reachable_inv)
  then show "\<forall>p \<in> set (map snd (polls (deliver this0 evs1))).
          distinct (map fst (votes p)) \<and> (closed_flag p \<longleftrightarrow> result p \<noteq> None)"
    by (simp add: store_inv_def poll_inv_def)
qed

theorem poll_records_evolve_witness:
  "polls attached = []
   \<and> deliver attached abc_events = abc_closed
   \<and> deliver (deliver attached abc_events) [late_vote] = abc_closed
   \<and> closed_flag (snd (polls abc_closed ! 0))
   \<and> result (snd (polls abc_closed ! 0)) = Some abc_result
   \<and> distinct (map fst (votes (snd (polls abc_closed ! 0))))"
proof -
  have h: "polls attached = []" by (simp add: attached_eq)
  have e1: "deliver attached abc_events = abc_closed" by (rule deliver_abc_events)
  have e2: "deliver (deliver attached abc_events) [late_vote] = abc_closed"
    by (simp only: e1 deliver_late_vote)
  have c: "closed_flag (snd (polls abc_closed ! 0))"
    "result (snd (polls abc_closed ! 0)) = Some abc_result"
    by (simp_all add: abc_closed_eq)
  have "snd (polls abc_closed ! 0) \<in> set (map snd (polls (deliver attached abc_events)))"
    by (simp add: e1 abc_closed_eq)
  with poll_records_evolve[OF h, of abc_events "[late_vote]"]
  have "distinct (map fst (votes (snd (polls abc_closed ! 0))))" by blast
  with h e1 e2 c show ?thesis by blast
qed

text \<open>
  Claim C6. A \<open>poll:vote\<close> from a sender that is already a key of the poll's \<open>votes\<close>
  changes nothing, whatever option index it carries: the instance after \<open>_onVote\<close> is
  the instance before, so \<open>votes.size\<close> and every recorded option index are as they were.
\<close>

theorem vote_again_noop:
  assumes "polls_get (get_prop payload ''poll_id'') (polls this) = Some p"
    and "votes_has senderHex (votes p)"
  shows "state (onVote this payload senderHex) = this"
  using assms by (simp add: onVote_def Let_def emit_def start_def split: jsval.splits)

theorem vote_again_noop_witness:
  "polls_get (get_prop (vote_payload (JStr ''p1'') (JNum (Num 2))) ''poll_id'') (polls abc_voted)
     = Some \<lparr>meta = abc_meta, votes = [(''peerA'', Num 0), (''peerB'', Num 1)],
             closed_flag = False, result = None\<rparr>
   \<and> votes_has ''peerA'' [(''peerA'', Num 0), (''peerB'', Num 1)]
   \<and> state (onVote abc_voted (vote_payload (JStr ''p1'') (JNum (Num 2))) ''peerA'') = abc_voted"
  using vote_again_noop[of "vote_payload (JStr ''p1'') (JNum (Num 2))" abc_voted
      "\<lparr>meta = abc_meta, votes = [(''peerA'', Num 0), (''peerB'', Num 1)],
             closed_flag = False, result = None\<rparr>" "''peerA''"]
  by (simp add: abc_voted_eq vote_payload_def same_value_zero_def votes_has_def)

text \<open>
  Claim C7. A \<open>poll:close\<close> for a poll id that is unknown, or whose poll is already
  closed, changes nothing: the instance (and with it \<open>closed\<close> and the stored \<open>result\<close>)
  is the same after \<open>_onClose\<close>, and the handler makes no \<open>contractPut\<close> and no
  \<open>sendSidechannel\<close> call.
\<close>

theorem close_again_noop:
  assumes "polls_get (get_prop payload ''poll_id'') (polls this) = None
     \<or> (\<exists>p. polls_get (get_prop payload ''poll_id'') (polls this) = Some p \<and> closed_flag p)"
  shows "state (onClose this payload senderHex now io) = this
     \<and> filter external (map fst (trace (onClose this payload senderHex now io))) = []"
  using assms by (auto simp add: onClose_def Let_def emit_def start_def)

theorem close_again_noop_witness:
  "polls_get (get_prop (close_payload (JStr ''p1'')) ''poll_id'') (polls abc_closed)
     = Some \<lparr>meta = abc_meta, votes = [(''peerA'', Num 0), (''peerB'', Num 1)],
             closed_flag = True, result = Some abc_result\<rparr>
   \<and> state (onClose abc_closed (close_payload (JStr ''p1'')) ''peer0'' 10 io_ok) = abc_closed
   \<and> filter external (map fst (trace (onClose abc_closed (close_payload (JStr ''p1'')) ''peer0'' 10 io_ok))) = []
   \<and> polls_get (get_prop (close_payload (JStr ''p2'')) ''poll_id'') (polls abc_closed) = None
   \<and> state (onClose abc_closed (close_payload (JStr ''p2'')) ''peer0'' 10 io_ok) = abc_closed"
  using close_again_noop[of "close_payload (JStr ''p1'')" abc_closed "''peer0''" 10 io_ok]
    close_again_noop[of "close_payload (JStr ''p2'')" abc_closed "''peer0''" 10 io_ok]
  by (simp add: abc_closed_eq close_payload_def same_value_zero_def)

text \<open>
  Claim C8 as stated fails where the attached peer has no \<open>contractPut\<close>: the close
  passes validation, and the only external call is the broadcast; nothing is written
  to the replicated log.
\<close>

theorem close_without_contractPut:
  "polls_get (get_prop (close_payload (JStr ''p1'')) ''poll_id'') (polls bare_voted) = Some abc_votes_poll
   \<and> \<not> closed_flag abc_votes_poll
   \<and> filter external (map fst (trace (onClose bare_voted (close_payload (JStr ''p1'')) ''peer0'' 9 io_ok)))
       = [SendSidechannel ''tracpoll-votes''
            (PollResult (JStr ''p1'') (JStr ''Q'') [JStr ''A'', JStr ''B'', JStr ''C''] abc_result)]"
proof -
  have g: "polls_get (get_prop (close_payload (JStr ''p1'')) ''poll_id'') (polls bare_voted) = Some abc_votes_poll"
    by (simp add: bare_voted_eq close_payload_def same_value_zero_def)
  have o: "\<not> closed_flag abc_votes_poll" by (simp add: abc_votes_poll_fields)
  have "filter external (map fst (trace (onClose bare_voted (close_payload (JStr ''p1'')) ''peer0'' 9 io_ok)))
       = [SendSidechannel ''tracpoll-votes''
            (PollResult (JStr ''p1'') (JStr ''Q'') [JStr ''A'', JStr ''B'', JStr ''C''] abc_result)]"
    unfolding onClose_external[OF g o abc_votes_poll_options]
    by (simp add: abc_votes_poll_result abc_votes_poll_fields Let_def can_contractPut_def
        can_sendSidechannel_def bare_voted_eq bare_peer_def broadcast_def io_ok_def close_payload_def)
  with g o show ?thesis by blast
qed

text \<open>
  Claim C8, amended. For every \<open>poll:close\<close> that passes validation (the poll exists
  and is open): the record is closed with the result attached in the final store and
  in the store seen by every effect of the handler, console lines included, whatever
  the peer offers and whether or not a call fails. Where every option converts to a
  string, the external calls are exactly, in this order: if the peer provides
  \<open>contractPut\<close>, the write of the meta under \<open>polls/<poll_id>/meta\<close> and, if that
  write fulfils, the write of the result under \<open>polls/<poll_id>/result\<close>; then, if
  the peer provides \<open>sendSidechannel\<close> and no write failed, \<open>sendSidechannel\<close> on the
  instance's channel of the \<open>poll:result\<close> message with poll_id, question, options and
  result. A peer without \<open>contractPut\<close> gets no write, a peer without
  \<open>sendSidechannel\<close> no broadcast; each is decided on its own.
\<close>

theorem close_commit_sequence:
  assumes "polls_get (get_prop payload ''poll_id'') (polls this) = Some p" and "\<not> closed_flag p"
    and "pid = get_prop payload ''poll_id''" and "res = compute_result p now"
    and "out = onClose this payload senderHex now io"
  shows "polls_get pid (polls (state out)) = Some (p\<lparr>closed_flag := True, result := Some res\<rparr>)
    \<and> (\<forall>(e, snap) \<in> set (trace out).
          polls_get pid snap = Some (p\<lparr>closed_flag := True, result := Some res\<rparr>))
    \<and> ((\<forall>opt \<in> set (options (meta p)). \<not> throws_to_string opt) \<longrightarrow>
        filter external (map fst (trace out)) =
          (if can_contractPut this
           then ContractPut (meta_key pid)
                  (MetaJson (question (meta p)) (options (meta p)) (created_at (meta p)))
                # (if io (ContractPut (meta_key pid)
                            (MetaJson (question (meta p)) (options (meta p)) (created_at (meta p))))
                   then [ContractPut (result_key pid) (ResultJson res)] else [])
           else [])
          @ (if can_sendSidechannel this
                \<and> (can_contractPut this \<longrightarrow>
                      io (ContractPut (meta_key pid)
                            (MetaJson (question (meta p)) (options (meta p)) (created_at (meta p))))
                      \<and> io (ContractPut (result_key pid) (ResultJson res)))
             then [SendSidechannel (channel this)
                     (PollResult pid (question (meta p)) (options (meta p)) res)]
             else []))
    \<and> (\<forall>s. pid = JStr s \<longrightarrow>
          render (meta_key pid) = Some (''polls/'' @ s @ ''/meta'')
          \<and> render (result_key pid) = Some (''polls/'' @ s @ ''/result''))"
proof (intro conjI)
  have prim: "is_primitive pid" using assms(1,3) polls_get_key by simp
  show fin: "polls_get pid (polls (state out)) = Some (p\<lparr>closed_flag := True, result := Some res\<rparr>)"
    using assms prim by (simp add: state_onClose polls_get_set)
  have "snd ` set (trace out) \<subseteq> {polls (state out)}"
    unfolding assms(5) using assms(1,2) by (rule onClose_snapshots)
  then show "\<forall>(e, snap) \<in> set (trace out).
          polls_get pid snap = Some (p\<lparr>closed_flag := True, result := Some res\<rparr>)"
    using fin by force
  show "(\<forall>opt \<in> set (options (meta p)). \<not> throws_to_string opt) \<longrightarrow>
        filter external (map fst (trace out)) =
          (if can_contractPut this
           then ContractPut (meta_key pid)
                  (MetaJson (question (meta p)) (options (meta p)) (created_at (meta p)))
                # (if io (ContractPut (meta_key pid)
                            (MetaJson (question (meta p)) (options (meta p)) (created_at (meta p))))
                   then [ContractPut (result_key pid) (ResultJson res)] else [])
           else [])
          @ (if can_sendSidechannel this
                \<and> (can_contractPut this \<longrightarrow>
                      io (ContractPut (meta_key pid)
                            (MetaJson (question (meta p)) (options (meta p)) (created_at (meta p))))
                      \<and> io (ContractPut (result_key pid) (ResultJson res)))
             then [SendSidechannel (channel this)
                     (PollResult pid (question (meta p)) (options (meta p)) res)]
             else [])"
  proof
    assume ok: "\<forall>opt \<in> set (options (meta p)). \<not> throws_to_string opt"
    have "filter external (map fst (trace out)) =
       (if can_contractPut this
           then put_meta pid p # (if io (put_meta pid p) then [put_result pid res] else [])
           else [])
          @ (if can_sendSidechannel this
                \<and> (can_contractPut this \<longrightarrow> io (put_meta pid p) \<and> io (put_result pid res))
             then [broadcast (channel this) pid p res] else [])"
      unfolding assms(5) onClose_external[OF assms(1,2) ok] by (simp add: Let_def assms(3,4))
    then show "filter external (map fst (trace out)) =
          (if can_contractPut this
           then ContractPut (meta_key pid)
                  (MetaJson (question (meta p)) (options (meta p)) (created_at (meta p)))
                # (if io (ContractPut (meta_key pid)
                            (MetaJson (question (meta p)) (options (meta p)) (created_at (meta p))))
                   then [ContractPut (result_key pid) (ResultJson res)] else [])
           else [])
          @ (if can_sendSidechannel this
                \<and> (can_contractPut this \<longrightarrow>
                      io (ContractPut (meta_key pid)
                            (MetaJson (question (meta p)) (options (meta p)) (created_at (meta p))))
                      \<and> io (ContractPut (result_key pid) (ResultJson res)))
             then [SendSidechannel (channel this)
                     (PollResult pid (question (meta p)) (options (meta p)) res)]
             else [])"
      by (simp only: put_meta_def put_result_def broadcast_def)
  qed
  show "\<forall>s. pid = JStr s \<longrightarrow>
          render (meta_key pid) = Some (''polls/'' @ s @ ''/meta'')
          \<and> render (result_key pid) = Some (''polls/'' @ s @ ''/result'')"
    by (simp add: meta_key_def result_key_def)
qed

theorem close_commit_sequence_witness:
  "polls_get (get_prop (close_payload (JStr ''p1'')) ''poll_id'') (polls abc_voted) = Some abc_votes_poll
   \<and> \<not> closed_flag abc_votes_poll
   \<and> abc_result = compute_result abc_votes_poll 9
   \<and> \<not> throws_to_string (JStr ''A'') \<and> \<not> throws_to_string (JStr ''B'') \<and> \<not> throws_to_string (JStr ''C'')
   \<and> can_contractPut abc_voted \<and> can_sendSidechannel abc_voted
   \<and> polls_get (JStr ''p1'') (polls abc_closed)
       = Some (abc_votes_poll\<lparr>closed_flag := True, result := Some abc_result\<rparr>)
   \<and> filter external (map fst (trace (onClose abc_voted (close_payload (JStr ''p1'')) ''peer0'' 9 io_ok)))
       = [ContractPut (meta_key (JStr ''p1'')) (MetaJson (JStr ''Q'') [JStr ''A'', JStr ''B'', JStr ''C''] 1),
          ContractPut (result_key (JStr ''p1'')) (ResultJson abc_result),
          SendSidechannel ''tracpoll-votes''
            (PollResult (JStr ''p1'') (JStr ''Q'') [JStr ''A'', JStr ''B'', JStr ''C''] abc_result)]
   \<and> render (meta_key (JStr ''p1'')) = Some ''polls/p1/meta''
   \<and> render (result_key (JStr ''p1'')) = Some ''polls/p1/result''"
proof -
  have g: "polls_get (get_prop (close_payload (JStr ''p1'')) ''poll_id'') (polls abc_voted) = Some abc_votes_poll"
    by (simp add: abc_voted_eq close_payload_def same_value_zero_def abc_votes_poll_def)
  have o: "\<not> closed_flag abc_votes_poll" by (simp add: abc_votes_poll_def)
  have pid: "JStr ''p1'' = get_prop (close_payload (JStr ''p1'')) ''poll_id''"
    by (simp add: close_payload_def)
  have r: "abc_result = compute_result abc_votes_poll 9"
    by (simp add: abc_votes_poll_result)
  have caps: "can_contractPut abc_voted" "can_sendSidechannel abc_voted"
    by (simp_all add: can_contractPut_def can_sendSidechannel_def abc_voted_eq full_peer_def)
  have c: "channel abc_voted = ''tracpoll-votes''" by (simp add: abc_voted_eq)
  from close_commit_sequence[OF g o pid r refl, of "''peer0''" io_ok]
  show ?thesis
    using g o r caps by (simp add: abc_votes_poll_fields c abc_closed_def io_ok_def)
qed

text \<open>
  Claim C9. A \<open>poll:create\<close> whose \<open>id\<close> is already a key of \<open>this.polls\<close> changes
  nothing: the instance after \<open>_onCreate\<close> is the instance before, so the record under
  that id keeps its question, options, creator, created_at, votes, closed flag and
  result; no external call is made.
\<close>

theorem create_existing_id_noop:
  assumes "polls_has (get_prop payload ''id'') (polls this)"
  shows "state (onCreate this payload senderHex now) = this
    \<and> filter external (map fst (trace (onCreate this payload senderHex now))) = []"
  using assms by (simp add: onCreate_def Let_def emit_def start_def)

theorem create_existing_id_noop_witness:
  "polls_has (get_prop (create_payload (JStr ''p1'') (JStr ''other'') [JStr ''X'', JStr ''Y'']) ''id'')
      (polls abc_voted)
   \<and> state (onCreate abc_voted (create_payload (JStr ''p1'') (JStr ''other'') [JStr ''X'', JStr ''Y''])
        ''peer1'' 2) = abc_voted"
  using create_existing_id_noop[of "create_payload (JStr ''p1'') (JStr ''other'') [JStr ''X'', JStr ''Y'']"
      abc_voted "''peer1''" 2]
  by (simp add: abc_voted_eq polls_has_def same_value_zero_def create_payload_def)

text \<open>
  Claim C10. In a store that started empty, closing an open poll that has no votes
  closes it with the result: all tallies zero, \<open>total_votes = 0\<close>, \<open>winner_index = 0\<close>
  and \<open>winner_option\<close> the first option.
\<close>

theorem close_without_votes:
  assumes "polls this0 = []" and "this = deliver this0 evs"
    and "polls_get (get_prop payload ''poll_id'') (polls this) = Some p"
    and "\<not> closed_flag p" and "votes p = []"
  shows "polls_get (get_prop payload ''poll_id'') (polls (state (onClose this payload senderHex now io)))
     = Some (p\<lparr>closed_flag := True,
               result := Some \<lparr>tallies = replicate (length (options (meta p))) (Some (Num 0)),
                               total_votes = 0, closed_at = now, winner_index = 0,
                               winner_option = hd (options (meta p))\<rparr>\<rparr>)"
proof -
  have "store_inv (polls this)" using assms(1,2) by (simp add: reachable_inv)
  then have "poll_inv p" using assms(3) by (rule polls_get_inv)
  then have "options (meta p) \<noteq> []" by (auto simp: poll_inv_def)
  with assms(5) have res: "compute_result p now =
     \<lparr>tallies = replicate (length (options (meta p))) (Some (Num 0)), total_votes = 0,
      closed_at = now, winner_index = 0, winner_option = hd (options (meta p))\<rparr>"
    by (rule compute_result_no_votes)
  have "is_primitive (get_prop payload ''poll_id'')" using assms(3) by (rule polls_get_key)
  then show ?thesis
    using assms(3,4) by (simp add: state_onClose polls_get_set res)
qed

theorem close_without_votes_witness:
  "polls attached = []
   \<and> abc_open = deliver attached [hd abc_events]
   \<and> polls_get (get_prop (close_payload (JStr ''p1'')) ''poll_id'') (polls abc_open)
       = Some \<lparr>meta = abc_meta, votes = [], closed_flag = False, result = None\<rparr>
   \<and> polls_get (get_prop (close_payload (JStr ''p1'')) ''poll_id'')
        (polls (state (onClose abc_open (close_payload (JStr ''p1'')) ''peer0'' 5 io_ok)))
       = Some \<lparr>meta = abc_meta, votes = [], closed_flag = True,
               result = Some \<lparr>tallies = [Some (Num 0), Some (Num 0), Some (Num 0)], total_votes = 0,
                               closed_at = 5, winner_index = 0, winner_option = JStr ''A''\<rparr>\<rparr>"
proof -
  let ?p = "\<lparr>meta = abc_meta, votes = [], closed_flag = False, result = None\<rparr>"
  have h1: "polls attached = []" by (simp add: attached_eq)
  have h2: "abc_open = deliver attached [hd abc_events]" by (simp add: deliver_create)
  have h3: "polls_get (get_prop (close_payload (JStr ''p1'')) ''poll_id'') (polls abc_open) = Some ?p"
    by (simp add: abc_open_eq close_payload_def same_value_zero_def)
  have h4: "\<not> closed_flag ?p" by simp
  have h5: "votes ?p = []" by simp
  from close_without_votes[OF h1 h2 h3 h4 h5, of "''peer0''" 5 io_ok] show ?thesis
    using h1 h2 h3 by (simp add: abc_meta_def numeral_3_eq_3)
qed

end
